theory Spec2Isabelle
  imports Complex_Main
begin

section \<open>MSEEvaluator: the data model\<close>

text \<open>
  The embedding is of \<^verbatim>\<open>sentence_transformers/evaluation/MSEEvaluator.py\<close>.
  The evaluator encodes a list of source sentences once with a teacher model, and on
  every call encodes its target sentences with the model under evaluation, takes the
  mean of the squared element-wise differences, scales it by 100, optionally appends a
  row to a CSV file and returns the negated value under the key \<^verbatim>\<open>negative_mse\<close>.
\<close>

subsection \<open>Floating-point scalars\<close>

text \<open>
  The embeddings are numpy arrays of floats. A scalar is a finite value, one of the two
  infinities or NaN. Finite values are carried as exact reals: rounding and overflow of
  finite arithmetic are not modelled. The special values follow IEEE 754, which is what
  numpy computes: NaN is absorbing, \<open>inf - inf\<close> and \<open>0 * inf\<close> are NaN, and every
  comparison with NaN is false.
\<close>

datatype npfloat = Fin real | PInf | NInf | NaN

fun fneg :: "npfloat \<Rightarrow> npfloat" where
  "fneg (Fin x) = Fin (- x)"
| "fneg PInf = NInf"
| "fneg NInf = PInf"
| "fneg NaN = NaN"

fun fadd :: "npfloat \<Rightarrow> npfloat \<Rightarrow> npfloat" where
  "fadd NaN _ = NaN"
| "fadd _ NaN = NaN"
| "fadd (Fin x) (Fin y) = Fin (x + y)"
| "fadd PInf NInf = NaN"
| "fadd NInf PInf = NaN"
| "fadd PInf _ = PInf"
| "fadd _ PInf = PInf"
| "fadd NInf _ = NInf"
| "fadd _ NInf = NInf"

definition fsub :: "npfloat \<Rightarrow> npfloat \<Rightarrow> npfloat" where
  "fsub a b = fadd a (fneg b)"

fun fmul :: "npfloat \<Rightarrow> npfloat \<Rightarrow> npfloat" where
  "fmul NaN _ = NaN"
| "fmul _ NaN = NaN"
| "fmul (Fin x) (Fin y) = Fin (x * y)"
| "fmul (Fin x) PInf = (if x = 0 then NaN else if 0 < x then PInf else NInf)"
| "fmul (Fin x) NInf = (if x = 0 then NaN else if 0 < x then NInf else PInf)"
| "fmul PInf (Fin y) = (if y = 0 then NaN else if 0 < y then PInf else NInf)"
| "fmul NInf (Fin y) = (if y = 0 then NaN else if 0 < y then NInf else PInf)"
| "fmul PInf PInf = PInf"
| "fmul PInf NInf = NInf"
| "fmul NInf PInf = NInf"
| "fmul NInf NInf = PInf"

text \<open>Division of a sum by a positive element count, as \<^verbatim>\<open>mean\<close> does.\<close>

fun fdiv_count :: "npfloat \<Rightarrow> nat \<Rightarrow> npfloat" where
  "fdiv_count (Fin s) n = Fin (s / real n)"
| "fdiv_count PInf n = PInf"
| "fdiv_count NInf n = NInf"
| "fdiv_count NaN n = NaN"

text \<open>Python's \<^verbatim>\<open><=\<close> and \<^verbatim>\<open><\<close> on floats.\<close>

fun fle :: "npfloat \<Rightarrow> npfloat \<Rightarrow> bool" where
  "fle NaN _ = False"
| "fle _ NaN = False"
| "fle (Fin x) (Fin y) = (x \<le> y)"
| "fle NInf _ = True"
| "fle _ PInf = True"
| "fle PInf _ = False"
| "fle _ NInf = False"

fun flt :: "npfloat \<Rightarrow> npfloat \<Rightarrow> bool" where
  "flt NaN _ = False"
| "flt _ NaN = False"
| "flt (Fin x) (Fin y) = (x < y)"
| "flt PInf _ = False"
| "flt _ NInf = False"
| "flt NInf _ = True"
| "flt _ PInf = True"

fun is_fin :: "npfloat \<Rightarrow> bool" where
  "is_fin (Fin x) = True"
| "is_fin _ = False"

subsection \<open>Two-dimensional arrays\<close>

text \<open>
  \<^verbatim>\<open>encode(..., convert_to_numpy=True)\<close> returns a matrix with one row per sentence and
  one column per embedding dimension. The column count is kept beside the rows, so that
  a matrix without rows still has a shape.
\<close>

record ndarray =
  ncols :: nat
  rows :: "npfloat list list"

datatype error = AttributeError | ValueError | OSError | EncodeError

definition wf_ndarray :: "ndarray \<Rightarrow> bool" where
  "wf_ndarray A = list_all (\<lambda>r. length r = ncols A) (rows A)"

definition all_finite :: "ndarray \<Rightarrow> bool" where
  "all_finite A = list_all (list_all is_fin) (rows A)"

definition nd_shape :: "ndarray \<Rightarrow> nat \<times> nat" where
  "nd_shape A = (length (rows A), ncols A)"

text \<open>
  numpy's broadcasting rule for one axis: equal lengths are kept, and a length of 1 is
  stretched to the other length; anything else is the error
  \<^verbatim>\<open>ValueError: operands could not be broadcast together\<close>.
\<close>

definition broadcast_dim :: "nat \<Rightarrow> nat \<Rightarrow> nat option" where
  "broadcast_dim a b =
     (if a = b then Some a else if a = 1 then Some b else if b = 1 then Some a else None)"

definition stretch :: "nat \<Rightarrow> 'a list \<Rightarrow> 'a list" where
  "stretch n xs = (case xs of [x] \<Rightarrow> replicate n x | _ \<Rightarrow> xs)"

definition broadcastable :: "ndarray \<Rightarrow> ndarray \<Rightarrow> bool" where
  "broadcastable A B =
     (broadcast_dim (length (rows A)) (length (rows B)) \<noteq> None \<and>
      broadcast_dim (ncols A) (ncols B) \<noteq> None)"

text \<open>\<^verbatim>\<open>A - B\<close> on arrays.\<close>

definition nd_sub :: "ndarray \<Rightarrow> ndarray \<Rightarrow> error + ndarray" where
  "nd_sub A B =
     (case broadcast_dim (length (rows A)) (length (rows B)) of
        None \<Rightarrow> Inl ValueError
      | Some n \<Rightarrow>
          (case broadcast_dim (ncols A) (ncols B) of
             None \<Rightarrow> Inl ValueError
           | Some d \<Rightarrow>
               Inr \<lparr>ncols = d,
                    rows = map2 (\<lambda>ra rb. map2 fsub (stretch d ra) (stretch d rb))
                             (stretch n (rows A)) (stretch n (rows B))\<rparr>))"

text \<open>\<^verbatim>\<open>D ** 2\<close>: every element multiplied by itself.\<close>

definition nd_square :: "ndarray \<Rightarrow> ndarray" where
  "nd_square D = D\<lparr>rows := map (map (\<lambda>x. fmul x x)) (rows D)\<rparr>"

text \<open>
  \<^verbatim>\<open>.mean()\<close> over all elements: the sum divided by the number of elements. For an array
  without elements numpy divides 0 by 0 and returns NaN (with a warning, not an error).
\<close>

definition fmean :: "npfloat list \<Rightarrow> npfloat" where
  "fmean xs = (if xs = [] then NaN else fdiv_count (foldl fadd (Fin 0) xs) (length xs))"

definition nd_mean :: "ndarray \<Rightarrow> npfloat" where
  "nd_mean D = fmean (concat (rows D))"

text \<open>Lines 82 and 83 of the source: the mean of the squared differences, times 100.\<close>

definition compute_mse :: "ndarray \<Rightarrow> ndarray \<Rightarrow> error + npfloat" where
  "compute_mse S T =
     (case nd_sub S T of
        Inl e \<Rightarrow> Inl e
      | Inr D \<Rightarrow> Inr (fmul (nd_mean (nd_square D)) (Fin 100)))"

subsection \<open>Encoders\<close>

text \<open>
  The teacher and the evaluated model are arguments of the evaluator, so an encoder is
  a parameter of the model: an object identity and the function that \<^verbatim>\<open>encode\<close>
  computes. The first argument of that function is the truncation dimension in force:
  \<open>Some d\<close> inside \<^verbatim>\<open>with model.truncate_sentence_embeddings(d)\<close>, \<open>None\<close> inside
  \<^verbatim>\<open>nullcontext()\<close>, where the model keeps its own setting. The other arguments are the
  sentences, \<^verbatim>\<open>show_progress_bar\<close> and \<^verbatim>\<open>batch_size\<close>. An encoder may raise.
\<close>

record encoder =
  enc_id :: nat
  encode_fn :: "int option \<Rightarrow> string list \<Rightarrow> bool \<Rightarrow> int \<Rightarrow> error + ndarray"

subsection \<open>The outside world\<close>

text \<open>
  A CSV file is the list of the rows written to it; a cell is a string, an integer or a
  float, as handed to \<^verbatim>\<open>csv.writer.writerow\<close> (the text that the writer produces for
  a cell is not modelled). The world holds the regular files, the paths at which
  \<^verbatim>\<open>open\<close> raises (a missing directory, a directory at the path, no permission), the
  metrics stored in each model's card data, and a trace of the calls made to encoders
  and to \<^verbatim>\<open>open\<close>. Messages sent to the logger are not modelled.
\<close>

datatype cell = CStr string | CInt int | CFloat npfloat

type_synonym csv_row = "cell list"

type_synonym metrics = "(string \<times> npfloat) list"

datatype open_mode = ModeW | ModeA

datatype event =
    EncodeCall nat "int option" "string list"
  | OpenCall string open_mode

record world =
  files :: "string \<rightharpoonup> csv_row list"
  open_denied :: "string \<Rightarrow> bool"
  model_card :: "nat \<rightharpoonup> metrics"
  trace :: "event list"

fun is_encode :: "event \<Rightarrow> bool" where
  "is_encode (EncodeCall i c s) = True"
| "is_encode (OpenCall p m) = False"

fun is_open :: "event \<Rightarrow> bool" where
  "is_open (EncodeCall i c s) = False"
| "is_open (OpenCall p m) = True"

text \<open>
  \<^verbatim>\<open>with nullcontext() if truncate_dim is None else m.truncate_sentence_embeddings(truncate_dim):\<close>
  \<^verbatim>\<open>    emb = m.encode(sentences, show_progress_bar=..., batch_size=..., convert_to_numpy=True)\<close>
\<close>

definition encode :: "encoder \<Rightarrow> int option \<Rightarrow> string list \<Rightarrow> bool \<Rightarrow> int \<Rightarrow> world
                      \<Rightarrow> (error + ndarray) \<times> world" where
  "encode m ctx sents spb bs w =
     (encode_fn m ctx sents spb bs,
      w\<lparr>trace := trace w @ [EncodeCall (enc_id m) ctx sents]\<rparr>)"

text \<open>\<^verbatim>\<open>os.path.join\<close> of two components (POSIX).\<close>

definition os_path_join :: "string \<Rightarrow> string \<Rightarrow> string" where
  "os_path_join a b =
     (if b \<noteq> [] \<and> hd b = CHR ''/'' then b
      else if a = [] \<or> last a = CHR ''/'' then a @ b
      else a @ ''/'' @ b)"

definition os_path_isfile :: "world \<Rightarrow> string \<Rightarrow> bool" where
  "os_path_isfile w p = (files w p \<noteq> None)"

text \<open>
  \<^verbatim>\<open>open(path, mode=...)\<close>: mode \<^verbatim>\<open>w\<close> creates the file or empties it, mode \<^verbatim>\<open>a\<close> creates it
  when it is missing and keeps its contents otherwise.
\<close>

definition open_file :: "string \<Rightarrow> open_mode \<Rightarrow> world \<Rightarrow> (error + unit) \<times> world" where
  "open_file p mode w =
     (let w' = w\<lparr>trace := trace w @ [OpenCall p mode]\<rparr> in
      if open_denied w p then (Inl OSError, w')
      else (Inr (),
            (case mode of
               ModeW \<Rightarrow> w'\<lparr>files := (files w')(p \<mapsto> [])\<rparr>
             | ModeA \<Rightarrow>
                 (case files w' p of
                    None \<Rightarrow> w'\<lparr>files := (files w')(p \<mapsto> [])\<rparr>
                  | Some old \<Rightarrow> w'))))"

definition writerow :: "string \<Rightarrow> csv_row \<Rightarrow> world \<Rightarrow> world" where
  "writerow p r w =
     w\<lparr>files := (files w)(p \<mapsto> (case files w p of None \<Rightarrow> [r] | Some old \<Rightarrow> old @ [r]))\<rparr>"

section \<open>The evaluator\<close>

record evaluator =
  truncate_dim :: "int option"
  source_embeddings :: ndarray
  target_sentences :: "string list"
  show_progress_bar :: bool
  batch_size :: int
  name :: string
  csv_file :: string
  csv_headers :: "string list"
  write_csv :: bool
  primary_metric :: string

text \<open>
  \<^verbatim>\<open>__init__\<close>. The teacher defaults to \<^verbatim>\<open>None\<close>; both
  \<^verbatim>\<open>teacher_model.truncate_sentence_embeddings\<close> and \<^verbatim>\<open>teacher_model.encode\<close> are
  attribute lookups on it, which raise \<^verbatim>\<open>AttributeError\<close> on \<^verbatim>\<open>None\<close>.
\<close>

definition init :: "string list \<Rightarrow> string list \<Rightarrow> encoder option \<Rightarrow> bool \<Rightarrow> int \<Rightarrow> string
                    \<Rightarrow> bool \<Rightarrow> int option \<Rightarrow> world \<Rightarrow> (error + evaluator) \<times> world" where
  "init source_sentences target_sents teacher_model spb bs nm wcsv tdim w =
     (case teacher_model of
        None \<Rightarrow> (Inl AttributeError, w)
      | Some teacher \<Rightarrow>
          (case encode teacher tdim source_sentences spb bs w of
             (Inl e, w') \<Rightarrow> (Inl e, w')
           | (Inr emb, w') \<Rightarrow>
               (Inr \<lparr>truncate_dim = tdim,
                     source_embeddings = emb,
                     target_sentences = target_sents,
                     show_progress_bar = spb,
                     batch_size = bs,
                     name = nm,
                     csv_file = ''mse_evaluation_'' @ nm @ ''_results.csv'',
                     csv_headers = [''epoch'', ''steps'', ''MSE''],
                     write_csv = wcsv,
                     primary_metric = ''negative_mse''\<rparr>, w')))"

text \<open>
  Modelled from the spec: \<^verbatim>\<open>SentenceEvaluator.prefix_name_to_metrics\<close> is defined in the
  base class, which is not part of the source file. The spec: "the metric name is
  optionally prefixed with a configured label for disambiguation"; an empty label
  leaves the names as they are. The label is joined to the metric name with an
  underscore, as \<^verbatim>\<open>__init__\<close> joins it into the name of the CSV file.
\<close>

definition prefix_name_to_metrics :: "metrics \<Rightarrow> string \<Rightarrow> metrics" where
  "prefix_name_to_metrics ms nm =
     (if nm = [] then ms else map (\<lambda>(k, v). (nm @ ''_'' @ k, v)) ms)"

text \<open>
  Modelled from the spec: \<^verbatim>\<open>SentenceEvaluator.store_metrics_in_model_card_data\<close> is
  defined in the base class, which is not part of the source file. The spec: "writes
  the metric into the evaluated model's persisted metadata".
\<close>

definition store_metrics_in_model_card_data :: "encoder \<Rightarrow> metrics \<Rightarrow> world \<Rightarrow> world" where
  "store_metrics_in_model_card_data m ms w = w\<lparr>model_card := (model_card w)(enc_id m \<mapsto> ms)\<rparr>"

text \<open>Lines 74 to 80 of \<^verbatim>\<open>__call__\<close>: the target sentences are encoded by the model.\<close>

definition encode_targets :: "evaluator \<Rightarrow> encoder \<Rightarrow> world \<Rightarrow> (error + ndarray) \<times> world" where
  "encode_targets self model w =
     encode model (truncate_dim self) (target_sentences self)
       (show_progress_bar self) (batch_size self) w"

text \<open>Lines 88 to 96 of \<^verbatim>\<open>__call__\<close>: the CSV log.\<close>

definition log_csv :: "evaluator \<Rightarrow> string option \<Rightarrow> int \<Rightarrow> int \<Rightarrow> npfloat \<Rightarrow> world
                       \<Rightarrow> (error + unit) \<times> world" where
  "log_csv self output_path epoch steps mse w =
     (case output_path of
        None \<Rightarrow> (Inr (), w)
      | Some dir \<Rightarrow>
          if \<not> write_csv self then (Inr (), w)
          else
            (let csv_path = os_path_join dir (csv_file self);
                 output_file_exists = os_path_isfile w csv_path
             in case open_file csv_path (if output_file_exists then ModeA else ModeW) w of
                  (Inl e, w1) \<Rightarrow> (Inl e, w1)
                | (Inr u, w1) \<Rightarrow>
                    (let w2 = (if \<not> output_file_exists
                               then writerow csv_path (map CStr (csv_headers self)) w1
                               else w1)
                     in (Inr (), writerow csv_path [CInt epoch, CInt steps, CFloat mse] w2))))"

text \<open>
  \<^verbatim>\<open>__call__\<close>. It returns the result (the metrics, or the error raised), the evaluator
  object as the call leaves it, and the world. No statement of \<^verbatim>\<open>__call__\<close> assigns to an
  attribute of \<^verbatim>\<open>self\<close>.
\<close>

definition call :: "evaluator \<Rightarrow> encoder \<Rightarrow> string option \<Rightarrow> int \<Rightarrow> int \<Rightarrow> world
                    \<Rightarrow> (error + metrics) \<times> evaluator \<times> world" where
  "call self model output_path epoch steps w =
     (case encode_targets self model w of
        (Inl e, w1) \<Rightarrow> (Inl e, self, w1)
      | (Inr target_embeddings, w1) \<Rightarrow>
          (case compute_mse (source_embeddings self) target_embeddings of
             Inl e \<Rightarrow> (Inl e, self, w1)
           | Inr mse \<Rightarrow>
               (case log_csv self output_path epoch steps mse w1 of
                  (Inl e, w2) \<Rightarrow> (Inl e, self, w2)
                | (Inr u, w2) \<Rightarrow>
                    (let ms = prefix_name_to_metrics [(''negative_mse'', fneg mse)] (name self)
                     in (Inr ms, self, store_metrics_in_model_card_data model ms w2)))))"

text \<open>
  A run of calls on one evaluator, as a training loop makes them: each call has its own
  model, output path, epoch and step count, and the loop goes on whether or not a call
  raised.
\<close>

fun calls :: "evaluator \<Rightarrow> (encoder \<times> string option \<times> int \<times> int) list \<Rightarrow> world
              \<Rightarrow> evaluator \<times> world" where
  "calls self [] w = (self, w)"
| "calls self ((model, output_path, epoch, steps) # rest) w =
     (case call self model output_path epoch steps w of
        (r, self', w') \<Rightarrow> calls self' rest w')"

section \<open>Auxiliary definitions\<close>

text \<open>
  The formula of the specification, "mse = 100 * mean((teacher_embeddings -
  model_embeddings)^2) over all elements of both matrices", written on the flattened
  matrices, position by position. The specification states it for matrices with equal
  row counts and equal dimensions.
\<close>

definition spec_mse :: "ndarray \<Rightarrow> ndarray \<Rightarrow> npfloat" where
  "spec_mse S T =
     fmul (Fin 100)
       (fmean (map2 (\<lambda>s t. fmul (fsub s t) (fsub s t)) (concat (rows S)) (concat (rows T))))"

text \<open>
  The mean of the claim, element by element of the result of numpy's subtraction. The
  result has the common length along each axis, or the other matrix's length where one
  matrix has length 1; element \<open>(i, j)\<close> of the difference is taken from row \<open>i\<close> and
  column \<open>j\<close> of each matrix, and from its only row or column where it has just one.
\<close>

definition bcast_len :: "nat \<Rightarrow> nat \<Rightarrow> nat" where
  "bcast_len a b = (if a = 1 then b else a)"

definition bcast_at :: "ndarray \<Rightarrow> nat \<Rightarrow> nat \<Rightarrow> npfloat" where
  "bcast_at A i j =
     rows A ! (if length (rows A) = 1 then 0 else i) ! (if ncols A = 1 then 0 else j)"

definition elementwise_mse :: "ndarray \<Rightarrow> ndarray \<Rightarrow> npfloat" where
  "elementwise_mse S T =
     fmul (Fin 100)
       (fmean (concat (map (\<lambda>i. map (\<lambda>j. fmul (fsub (bcast_at S i j) (bcast_at T i j))
                                           (fsub (bcast_at S i j) (bcast_at T i j)))
                                 [0..<bcast_len (ncols S) (ncols T)])
                        [0..<bcast_len (length (rows S)) (length (rows T))])))"

text \<open>Sign predicates on scalars.\<close>

definition nonneg_or_nan :: "npfloat \<Rightarrow> bool" where
  "nonneg_or_nan x = (x = NaN \<or> fle (Fin 0) x)"

fun fin_nonneg :: "npfloat \<Rightarrow> bool" where
  "fin_nonneg (Fin x) = (0 \<le> x)"
| "fin_nonneg _ = False"

text \<open>
  Example values: an encoder that embeds a sentence as a row filled with its length
  times a constant (two columns wide unless a truncation dimension is in force), a
  world without files in which every \<^verbatim>\<open>open\<close> succeeds, and the evaluator that
  \<^verbatim>\<open>__init__\<close> builds in that world with the encoder as the teacher.
\<close>

definition toy_encoder :: "nat \<Rightarrow> real \<Rightarrow> encoder" where
  "toy_encoder i c =
     \<lparr>enc_id = i,
      encode_fn = (\<lambda>ctx sents spb bs.
         Inr \<lparr>ncols = (case ctx of None \<Rightarrow> 2 | Some d \<Rightarrow> nat d),
               rows = map (\<lambda>s. replicate (case ctx of None \<Rightarrow> 2 | Some d \<Rightarrow> nat d)
                                  (Fin (c * real (length s)))) sents\<rparr>)\<rparr>"

definition empty_world :: world where
  "empty_world = \<lparr>files = Map.empty, open_denied = (\<lambda>p. False), model_card = Map.empty, trace = []\<rparr>"

definition toy_evaluator :: "string list \<Rightarrow> string list \<Rightarrow> evaluator" where
  "toy_evaluator src tgt =
     (case fst (init src tgt (Some (toy_encoder 1 1)) False 32 ''dev'' True None empty_world) of
        Inr ev \<Rightarrow> ev)"

text \<open>
  A second example encoder, two columns wide, that truncates as Python's slice
  \<^verbatim>\<open>row[:d]\<close> does: a dimension beyond the width leaves the row as it is.
\<close>

definition py_slice_to :: "int \<Rightarrow> 'a list \<Rightarrow> 'a list" where
  "py_slice_to d xs = (if 0 \<le> d then take (nat d) xs else take (nat (int (length xs) + d)) xs)"

definition slicing_encoder :: "nat \<Rightarrow> encoder" where
  "slicing_encoder i =
     \<lparr>enc_id = i,
      encode_fn = (\<lambda>ctx sents spb bs.
         Inr (case ctx of
                None \<Rightarrow> \<lparr>ncols = 2, rows = map (\<lambda>s. [Fin (real (length s)), Fin 1]) sents\<rparr>
              | Some d \<Rightarrow>
                  \<lparr>ncols = length (py_slice_to d [Fin 0, Fin 1]),
                   rows = map (\<lambda>s. py_slice_to d [Fin (real (length s)), Fin 1]) sents\<rparr>))\<rparr>"

lemmas ev_simps = toy_encoder_def empty_world_def init_def encode_def call_def encode_targets_def
  compute_mse_def nd_sub_def broadcast_dim_def stretch_def nd_square_def nd_mean_def fmean_def
  log_csv_def os_path_join_def os_path_isfile_def open_file_def writerow_def
  prefix_name_to_metrics_def store_metrics_in_model_card_data_def fsub_def Let_def
  eval_nat_numeral wf_ndarray_def all_finite_def nd_shape_def spec_mse_def toy_evaluator_def

section \<open>Properties of the numeric operations\<close>

lemma fmul_self_sign: "nonneg_or_nan (fmul x x)"
  by (cases x) (simp_all add: nonneg_or_nan_def)

lemma fadd_sign: "nonneg_or_nan a \<Longrightarrow> nonneg_or_nan b \<Longrightarrow> nonneg_or_nan (fadd a b)"
  by (cases a; cases b) (simp_all add: nonneg_or_nan_def)

lemma foldl_fadd_sign:
  "nonneg_or_nan acc \<Longrightarrow> list_all nonneg_or_nan xs \<Longrightarrow> nonneg_or_nan (foldl fadd acc xs)"
  by (induction xs arbitrary: acc) (simp_all add: fadd_sign)

lemma fdiv_count_sign: "nonneg_or_nan x \<Longrightarrow> nonneg_or_nan (fdiv_count x n)"
  by (cases x) (simp_all add: nonneg_or_nan_def)

lemma fmul_100_sign: "nonneg_or_nan x \<Longrightarrow> nonneg_or_nan (fmul x (Fin 100))"
  by (cases x) (simp_all add: nonneg_or_nan_def)

lemma nonneg_or_nan_simps [simp]: "nonneg_or_nan NaN" "nonneg_or_nan (Fin 0)"
  by (simp_all add: nonneg_or_nan_def)

lemma fmean_sign: "list_all nonneg_or_nan xs \<Longrightarrow> nonneg_or_nan (fmean xs)"
  by (simp add: fmean_def fdiv_count_sign foldl_fadd_sign)

lemma nd_square_sign: "list_all nonneg_or_nan (concat (rows (nd_square D)))"
  by (simp add: nd_square_def list_all_iff fmul_self_sign)

lemma compute_mse_sign: "compute_mse S T = Inr m \<Longrightarrow> nonneg_or_nan m"
  by (auto simp: compute_mse_def nd_mean_def fmul_100_sign fmean_sign nd_square_sign split: sum.splits)

lemma nonneg_not_negative: "nonneg_or_nan m \<Longrightarrow> \<not> flt m (Fin 0)"
  by (cases m) (simp_all add: nonneg_or_nan_def)

lemma fneg_sign: "nonneg_or_nan m \<Longrightarrow> fneg m = NaN \<or> fle (fneg m) (Fin 0)"
  by (cases m) (simp_all add: nonneg_or_nan_def)

lemma fmul_commute: "fmul a b = fmul b a"
  by (cases a; cases b) (simp_all add: mult.commute)

subsection \<open>Shapes\<close>

lemma stretch_id: "length xs = n \<Longrightarrow> stretch n xs = xs"
  by (auto simp: stretch_def split: list.splits)

lemma length_stretch_left: "broadcast_dim (length xs) k = Some n \<Longrightarrow> length (stretch n xs) = n"
  by (auto simp: broadcast_dim_def stretch_def split: list.splits if_splits)

lemma length_stretch_right: "broadcast_dim k (length xs) = Some n \<Longrightarrow> length (stretch n xs) = n"
  by (auto simp: broadcast_dim_def stretch_def split: list.splits if_splits)

lemma set_stretch: "set (stretch n xs) \<subseteq> set xs"
  by (auto simp: stretch_def split: list.splits)

lemma list_all_stretch: "list_all P xs \<Longrightarrow> list_all P (stretch n xs)"
  using set_stretch [of n xs] by (auto simp: list_all_iff)

lemma broadcast_dim_pos: "broadcast_dim a b = Some n \<Longrightarrow> 0 < a \<Longrightarrow> 0 < b \<Longrightarrow> 0 < n"
  by (auto simp: broadcast_dim_def split: if_splits)

lemma broadcast_dim_same [simp]: "broadcast_dim a a = Some a"
  by (simp add: broadcast_dim_def)

lemma length_concat_uniform:
  "list_all (\<lambda>r. length r = d) xs \<Longrightarrow> length (concat xs) = length xs * d"
  by (induction xs) simp_all

lemma nd_sub_error: "nd_sub A B = Inl e \<Longrightarrow> e = ValueError"
  by (auto simp: nd_sub_def split: option.splits)

lemma nd_sub_broadcastable: "(\<exists>D. nd_sub A B = Inr D) = broadcastable A B"
  by (auto simp: nd_sub_def broadcastable_def split: option.splits)

lemma nd_sub_wf:
  assumes "nd_sub A B = Inr D" "wf_ndarray A" "wf_ndarray B"
  shows "wf_ndarray D \<and> broadcast_dim (length (rows A)) (length (rows B)) = Some (length (rows D))
          \<and> broadcast_dim (ncols A) (ncols B) = Some (ncols D)"
proof -
  from assms(1) obtain n d where n: "broadcast_dim (length (rows A)) (length (rows B)) = Some n"
    and d: "broadcast_dim (ncols A) (ncols B) = Some d"
    and D: "D = \<lparr>ncols = d, rows = map2 (\<lambda>ra rb. map2 fsub (stretch d ra) (stretch d rb))
                             (stretch n (rows A)) (stretch n (rows B))\<rparr>"
    by (auto simp: nd_sub_def split: option.splits)
  have la: "length (stretch n (rows A)) = n" using n by (rule length_stretch_left)
  have lb: "length (stretch n (rows B)) = n" using n by (rule length_stretch_right)
  have ra: "\<And>r. r \<in> set (stretch n (rows A)) \<Longrightarrow> length (stretch d r) = d"
  proof -
    fix r assume "r \<in> set (stretch n (rows A))"
    then have "r \<in> set (rows A)" using set_stretch by fastforce
    then have "length r = ncols A" using assms(2) by (simp add: wf_ndarray_def list_all_iff)
    then show "length (stretch d r) = d" using d length_stretch_left by metis
  qed
  have rb: "\<And>r. r \<in> set (stretch n (rows B)) \<Longrightarrow> length (stretch d r) = d"
  proof -
    fix r assume "r \<in> set (stretch n (rows B))"
    then have "r \<in> set (rows B)" using set_stretch by fastforce
    then have "length r = ncols B" using assms(3) by (simp add: wf_ndarray_def list_all_iff)
    then show "length (stretch d r) = d" using d length_stretch_right by metis
  qed
  have "wf_ndarray D"
    unfolding D wf_ndarray_def list_all_iff
  proof
    fix r
    assume "r \<in> set (rows \<lparr>ncols = d, rows = map2 (\<lambda>ra rb. map2 fsub (stretch d ra) (stretch d rb))
                             (stretch n (rows A)) (stretch n (rows B))\<rparr>)"
    then obtain a b where "(a, b) \<in> set (zip (stretch n (rows A)) (stretch n (rows B)))"
      and r: "r = map2 fsub (stretch d a) (stretch d b)" by auto
    then have "a \<in> set (stretch n (rows A))" "b \<in> set (stretch n (rows B))"
      by (auto dest: set_zip_leftD set_zip_rightD)
    then show "length r = ncols \<lparr>ncols = d, rows = map2 (\<lambda>ra rb. map2 fsub (stretch d ra) (stretch d rb))
                             (stretch n (rows A)) (stretch n (rows B))\<rparr>"
      using ra rb by (simp add: r)
  qed
  moreover have "length (rows D) = n" by (simp add: D la lb)
  moreover have "ncols D = d" by (simp add: D)
  ultimately show ?thesis using n d by simp
qed

subsection \<open>Finite entries\<close>

lemma fsub_fin: "is_fin a \<Longrightarrow> is_fin b \<Longrightarrow> is_fin (fsub a b)"
  by (cases a; cases b) (simp_all add: fsub_def)

lemma fmul_self_fin: "is_fin a \<Longrightarrow> fin_nonneg (fmul a a)"
  by (cases a) simp_all

lemma fadd_fin_nonneg: "fin_nonneg a \<Longrightarrow> fin_nonneg b \<Longrightarrow> fin_nonneg (fadd a b)"
  by (cases a; cases b) simp_all

lemma foldl_fadd_fin_nonneg:
  "fin_nonneg acc \<Longrightarrow> list_all fin_nonneg xs \<Longrightarrow> fin_nonneg (foldl fadd acc xs)"
  by (induction xs arbitrary: acc) (simp_all add: fadd_fin_nonneg)

lemma fdiv_count_fin_nonneg: "fin_nonneg x \<Longrightarrow> fin_nonneg (fdiv_count x n)"
  by (cases x) simp_all

lemma fmul_100_fin_nonneg: "fin_nonneg x \<Longrightarrow> fin_nonneg (fmul x (Fin 100))"
  by (cases x) simp_all

lemma fin_nonneg_fle: "fin_nonneg x \<Longrightarrow> fle (Fin 0) x \<and> fle (fneg x) (Fin 0) \<and> x \<noteq> NaN"
  by (cases x) simp_all

lemma fmean_fin_nonneg: "xs \<noteq> [] \<Longrightarrow> list_all fin_nonneg xs \<Longrightarrow> fin_nonneg (fmean xs)"
  by (simp add: fmean_def fdiv_count_fin_nonneg foldl_fadd_fin_nonneg)

lemma nd_sub_cells:
  assumes "nd_sub A B = Inr D" "x \<in> set (concat (rows D))"
  shows "\<exists>a b. a \<in> set (concat (rows A)) \<and> b \<in> set (concat (rows B)) \<and> x = fsub a b"
proof -
  from assms(1) obtain n d where
    D: "rows D = map2 (\<lambda>ra rb. map2 fsub (stretch d ra) (stretch d rb))
                   (stretch n (rows A)) (stretch n (rows B))"
    by (auto simp: nd_sub_def split: option.splits)
  from assms(2) obtain r where r: "r \<in> set (rows D)" and x: "x \<in> set r" by auto
  from r obtain ra rb where "(ra, rb) \<in> set (zip (stretch n (rows A)) (stretch n (rows B)))"
    and rr: "r = map2 fsub (stretch d ra) (stretch d rb)" by (auto simp: D)
  then have ra: "ra \<in> set (rows A)" and rb: "rb \<in> set (rows B)"
    using set_stretch by (fastforce dest: set_zip_leftD set_zip_rightD)+
  from x obtain a b where "(a, b) \<in> set (zip (stretch d ra) (stretch d rb))" and xab: "x = fsub a b"
    by (auto simp: rr)
  then have "a \<in> set ra" "b \<in> set rb"
    using set_stretch by (fastforce dest: set_zip_leftD set_zip_rightD)+
  with ra rb xab show ?thesis by auto
qed

lemma nd_sub_nonempty:
  assumes "nd_sub A B = Inr D" "wf_ndarray A" "wf_ndarray B"
    "rows A \<noteq> []" "rows B \<noteq> []" "0 < ncols A" "0 < ncols B"
  shows "concat (rows D) \<noteq> []"
proof -
  from nd_sub_wf [OF assms(1-3)] have wf: "wf_ndarray D"
    and n: "broadcast_dim (length (rows A)) (length (rows B)) = Some (length (rows D))"
    and d: "broadcast_dim (ncols A) (ncols B) = Some (ncols D)" by simp_all
  have "0 < length (rows D)" using broadcast_dim_pos [OF n] assms(4,5) by simp
  moreover have "0 < ncols D" using broadcast_dim_pos [OF d] assms(6,7) by simp
  moreover have "length (concat (rows D)) = length (rows D) * ncols D"
    using wf by (simp add: wf_ndarray_def length_concat_uniform)
  ultimately have "0 < length (concat (rows D))" by simp
  then show ?thesis by (simp only: length_greater_0_conv not_False_eq_True)
qed

lemma compute_mse_finite:
  assumes "compute_mse A B = Inr m" "wf_ndarray A" "wf_ndarray B" "all_finite A" "all_finite B"
    "rows A \<noteq> []" "rows B \<noteq> []" "0 < ncols A" "0 < ncols B"
  shows "fin_nonneg m"
proof -
  from assms(1) obtain D where D: "nd_sub A B = Inr D"
    and m: "m = fmul (nd_mean (nd_square D)) (Fin 100)"
    by (auto simp: compute_mse_def split: sum.splits)
  have fin: "\<And>x. x \<in> set (concat (rows D)) \<Longrightarrow> is_fin x"
  proof -
    fix x assume "x \<in> set (concat (rows D))"
    from nd_sub_cells [OF D this] obtain a b where
      "a \<in> set (concat (rows A))" "b \<in> set (concat (rows B))" "x = fsub a b" by blast
    moreover from this assms(4,5) have "is_fin a" "is_fin b"
      by (auto simp: all_finite_def list_all_iff)
    ultimately show "is_fin x" by (simp add: fsub_fin)
  qed
  have sq: "concat (rows (nd_square D)) = map (\<lambda>x. fmul x x) (concat (rows D))"
    by (simp add: nd_square_def map_concat)
  have "list_all fin_nonneg (concat (rows (nd_square D)))"
    unfolding sq using fin by (simp add: list_all_iff fmul_self_fin)
  moreover have "concat (rows (nd_square D)) \<noteq> []"
    unfolding sq using nd_sub_nonempty [OF D assms(2,3,6-9)] by simp
  ultimately have "fin_nonneg (nd_mean (nd_square D))"
    unfolding nd_mean_def by (rule fmean_fin_nonneg [rotated])
  then show ?thesis by (simp add: m fmul_100_fin_nonneg)
qed

subsection \<open>Equal matrices\<close>

lemma fsub_self_fin: "is_fin a \<Longrightarrow> fsub a a = Fin 0"
  by (cases a) (simp_all add: fsub_def)

lemma foldl_fadd_zeros: "list_all (\<lambda>x. x = Fin 0) xs \<Longrightarrow> foldl fadd (Fin 0) xs = Fin 0"
  by (induction xs) simp_all

lemma fmean_zeros: "xs \<noteq> [] \<Longrightarrow> list_all (\<lambda>x. x = Fin 0) xs \<Longrightarrow> fmean xs = Fin 0"
  by (simp add: fmean_def foldl_fadd_zeros)

lemma nd_sub_self_cells:
  assumes "nd_sub A A = Inr D" "all_finite A" "x \<in> set (concat (rows D))"
  shows "x = Fin 0"
proof -
  from assms(1) obtain n d where
    D: "rows D = map2 (\<lambda>ra rb. map2 fsub (stretch d ra) (stretch d rb))
                   (stretch n (rows A)) (stretch n (rows A))"
    by (auto simp: nd_sub_def split: option.splits)
  from assms(3) obtain r where r: "r \<in> set (rows D)" and x: "x \<in> set r" by auto
  from r obtain ra where ra: "ra \<in> set (stretch n (rows A))"
    and rr: "r = map2 fsub (stretch d ra) (stretch d ra)"
    by (auto simp: D zip_same_conv_map)
  from ra have "ra \<in> set (rows A)" using set_stretch by fastforce
  from x obtain a where a: "a \<in> set (stretch d ra)" and xa: "x = fsub a a"
    by (auto simp: rr zip_same_conv_map)
  from a have "a \<in> set ra" using set_stretch by fastforce
  with \<open>ra \<in> set (rows A)\<close> assms(2) have "is_fin a" by (auto simp: all_finite_def list_all_iff)
  then show ?thesis by (simp add: xa fsub_self_fin)
qed

lemma compute_mse_self:
  assumes "wf_ndarray A" "all_finite A" "rows A \<noteq> []" "0 < ncols A"
  shows "compute_mse A A = Inr (Fin 0)"
proof -
  obtain D where D: "nd_sub A A = Inr D"
    using nd_sub_broadcastable [of A A] by (auto simp: broadcastable_def)
  have sq: "concat (rows (nd_square D)) = map (\<lambda>x. fmul x x) (concat (rows D))"
    by (simp add: nd_square_def map_concat)
  have "list_all (\<lambda>x. x = Fin 0) (concat (rows (nd_square D)))"
    unfolding sq list_all_iff
  proof
    fix y assume "y \<in> set (map (\<lambda>x. fmul x x) (concat (rows D)))"
    then obtain x where x: "x \<in> set (concat (rows D))" and y: "y = fmul x x"
      by (auto simp del: set_concat)
    from nd_sub_self_cells [OF D assms(2) x] show "y = Fin 0" by (simp add: y)
  qed
  moreover have "concat (rows (nd_square D)) \<noteq> []"
    unfolding sq using nd_sub_nonempty [OF D assms(1) assms(1) assms(3) assms(3) assms(4) assms(4)]
    by simp
  ultimately have "nd_mean (nd_square D) = Fin 0"
    unfolding nd_mean_def by (rule fmean_zeros [rotated])
  then show ?thesis by (simp add: compute_mse_def D)
qed

subsection \<open>Equal shapes\<close>

lemma concat_map2_map2:
  "length xs = length ys \<Longrightarrow> \<forall>(x, y) \<in> set (zip xs ys). length x = length y \<Longrightarrow>
   concat (map2 (map2 f) xs ys) = map2 f (concat xs) (concat ys)"
  by (induction xs ys rule: list_induct2) (simp_all add: zip_append)

lemma nd_sub_same_shape:
  assumes "wf_ndarray A" "wf_ndarray B" "nd_shape A = nd_shape B"
  shows "nd_sub A B = Inr \<lparr>ncols = ncols A, rows = map2 (map2 fsub) (rows A) (rows B)\<rparr>"
proof -
  have len: "length (rows A) = length (rows B)" and col: "ncols B = ncols A"
    using assms(3) by (simp_all add: nd_shape_def)
  have "map2 (\<lambda>ra rb. map2 fsub (stretch (ncols A) ra) (stretch (ncols A) rb)) (rows A) (rows B)
        = map2 (map2 fsub) (rows A) (rows B)"
  proof (rule map_cong [OF refl])
    fix p assume "p \<in> set (zip (rows A) (rows B))"
    obtain ra rb where p: "p = (ra, rb)" by (cases p)
    with \<open>p \<in> set (zip (rows A) (rows B))\<close> have "ra \<in> set (rows A)" "rb \<in> set (rows B)"
      by (auto dest: set_zip_leftD set_zip_rightD)
    then have "length ra = ncols A" "length rb = ncols A"
      using assms(1,2) col by (auto simp: wf_ndarray_def list_all_iff)
    then show "(case p of (ra, rb) \<Rightarrow> map2 fsub (stretch (ncols A) ra) (stretch (ncols A) rb))
             = (case p of (x, y) \<Rightarrow> map2 fsub x y)"
      by (simp add: p stretch_id)
  qed
  then show ?thesis
    by (simp add: nd_sub_def len col stretch_id)
qed

lemma compute_mse_same_shape:
  assumes "wf_ndarray A" "wf_ndarray B" "nd_shape A = nd_shape B"
  shows "compute_mse A B = Inr (spec_mse A B)"
proof -
  have len: "length (rows A) = length (rows B)" and col: "ncols B = ncols A"
    using assms(3) by (simp_all add: nd_shape_def)
  have rowlen: "\<forall>(x, y) \<in> set (zip (rows A) (rows B)). length x = length y"
  proof (rule ballI, clarify)
    fix x y assume "(x, y) \<in> set (zip (rows A) (rows B))"
    then have "x \<in> set (rows A)" "y \<in> set (rows B)"
      by (auto dest: set_zip_leftD set_zip_rightD)
    then show "length x = length y"
      using assms(1,2) col by (simp add: wf_ndarray_def list_all_iff)
  qed
  have "concat (rows (nd_square \<lparr>ncols = ncols A, rows = map2 (map2 fsub) (rows A) (rows B)\<rparr>))
        = map (\<lambda>x. fmul x x) (map2 fsub (concat (rows A)) (concat (rows B)))"
    by (simp add: nd_square_def map_concat concat_map2_map2 [OF len rowlen, symmetric] del: map_map)
  also have "\<dots> = map2 (\<lambda>s t. fmul (fsub s t) (fsub s t)) (concat (rows A)) (concat (rows B))"
    by (simp add: case_prod_unfold)
  finally show ?thesis
    by (simp add: compute_mse_def nd_sub_same_shape [OF assms] nd_mean_def spec_mse_def
        fmul_commute [of _ "Fin 100"])
qed

subsection \<open>The difference, element by element\<close>

lemma stretch_nth: "i < n \<Longrightarrow> stretch n xs ! i = xs ! (if length xs = 1 then 0 else i)"
  by (cases xs rule: list.exhaust [case_names Nil Cons])
     (auto simp: stretch_def split: list.splits)

lemma broadcast_dim_len: "broadcast_dim a b = Some n \<Longrightarrow> n = bcast_len a b"
  by (auto simp: broadcast_dim_def bcast_len_def split: if_splits)

lemma map2_nth:
  "length xs = n \<Longrightarrow> length ys = n \<Longrightarrow> map2 f xs ys = map (\<lambda>i. f (xs ! i) (ys ! i)) [0..<n]"
  by (rule nth_equalityI) simp_all

lemma stretch_index_left:
  "broadcast_dim (length xs) k = Some n \<Longrightarrow> i < n \<Longrightarrow>
   (if length xs = 1 then 0 else i) < length xs"
  by (auto simp: broadcast_dim_def split: if_splits)

lemma stretch_index_right:
  "broadcast_dim k (length xs) = Some n \<Longrightarrow> i < n \<Longrightarrow>
   (if length xs = 1 then 0 else i) < length xs"
  by (auto simp: broadcast_dim_def split: if_splits)

lemma nd_sub_rows:
  assumes "nd_sub A B = Inr D" "wf_ndarray A" "wf_ndarray B"
  shows "rows D = map (\<lambda>i. map (\<lambda>j. fsub (bcast_at A i j) (bcast_at B i j))
                              [0..<bcast_len (ncols A) (ncols B)])
                    [0..<bcast_len (length (rows A)) (length (rows B))]"
proof -
  from assms(1) obtain n d where n: "broadcast_dim (length (rows A)) (length (rows B)) = Some n"
    and d: "broadcast_dim (ncols A) (ncols B) = Some d"
    and D: "rows D = map2 (\<lambda>ra rb. map2 fsub (stretch d ra) (stretch d rb))
                       (stretch n (rows A)) (stretch n (rows B))"
    by (auto simp: nd_sub_def split: option.splits)
  have n': "bcast_len (length (rows A)) (length (rows B)) = n"
    using broadcast_dim_len [OF n] by simp
  have d': "bcast_len (ncols A) (ncols B) = d" using broadcast_dim_len [OF d] by simp
  have la: "length (stretch n (rows A)) = n" using n by (rule length_stretch_left)
  have lb: "length (stretch n (rows B)) = n" using n by (rule length_stretch_right)
  have row: "map2 fsub (stretch d (stretch n (rows A) ! i)) (stretch d (stretch n (rows B) ! i))
           = map (\<lambda>j. fsub (bcast_at A i j) (bcast_at B i j)) [0..<d]" if i: "i < n" for i
  proof -
    let ?ia = "if length (rows A) = 1 then 0 else i"
    let ?ib = "if length (rows B) = 1 then 0 else i"
    have ra: "stretch n (rows A) ! i = rows A ! ?ia" using i by (rule stretch_nth)
    have rb: "stretch n (rows B) ! i = rows B ! ?ib" using i by (rule stretch_nth)
    have "?ia < length (rows A)" using n i by (rule stretch_index_left)
    then have lra: "length (rows A ! ?ia) = ncols A"
      using assms(2) by (simp add: wf_ndarray_def list_all_length)
    have "?ib < length (rows B)" using n i by (rule stretch_index_right)
    then have lrb: "length (rows B ! ?ib) = ncols B"
      using assms(3) by (simp add: wf_ndarray_def list_all_length)
    have "broadcast_dim (length (rows A ! ?ia)) (ncols B) = Some d" by (simp only: lra d)
    then have sa: "length (stretch d (rows A ! ?ia)) = d" by (rule length_stretch_left)
    have "broadcast_dim (ncols A) (length (rows B ! ?ib)) = Some d" by (simp only: lrb d)
    then have sb: "length (stretch d (rows B ! ?ib)) = d" by (rule length_stretch_right)
    have "map2 fsub (stretch d (rows A ! ?ia)) (stretch d (rows B ! ?ib))
           = map (\<lambda>j. fsub (stretch d (rows A ! ?ia) ! j) (stretch d (rows B ! ?ib) ! j)) [0..<d]"
      using sa sb by (rule map2_nth)
    also have "\<dots> = map (\<lambda>j. fsub (bcast_at A i j) (bcast_at B i j)) [0..<d]"
    proof (rule map_cong [OF refl])
      fix j assume "j \<in> set [0..<d]"
      then have j: "j < d" by simp
      have ea: "stretch d (rows A ! ?ia) ! j = bcast_at A i j"
        using stretch_nth [OF j, of "rows A ! ?ia"] unfolding lra bcast_at_def .
      have eb: "stretch d (rows B ! ?ib) ! j = bcast_at B i j"
        using stretch_nth [OF j, of "rows B ! ?ib"] unfolding lrb bcast_at_def .
      show "fsub (stretch d (rows A ! ?ia) ! j) (stretch d (rows B ! ?ib) ! j)
              = fsub (bcast_at A i j) (bcast_at B i j)"
        by (simp only: ea eb)
    qed
    finally show ?thesis by (simp only: ra rb)
  qed
  have "rows D = map (\<lambda>i. map2 fsub (stretch d (stretch n (rows A) ! i))
                                     (stretch d (stretch n (rows B) ! i))) [0..<n]"
    unfolding D using la lb by (rule map2_nth)
  also have "\<dots> = map (\<lambda>i. map (\<lambda>j. fsub (bcast_at A i j) (bcast_at B i j)) [0..<d]) [0..<n]"
    by (rule map_cong [OF refl]) (simp add: row)
  finally show ?thesis by (simp only: n' d')
qed

lemma compute_mse_bcast:
  assumes "compute_mse A B = Inr m" "wf_ndarray A" "wf_ndarray B"
  shows "m = elementwise_mse A B"
proof -
  from assms(1) obtain D where D: "nd_sub A B = Inr D"
    and m: "m = fmul (nd_mean (nd_square D)) (Fin 100)"
    by (auto simp: compute_mse_def split: sum.splits)
  have "rows (nd_square D) = map (map (\<lambda>x. fmul x x)) (rows D)" by (simp add: nd_square_def)
  also have "\<dots> = map (\<lambda>i. map (\<lambda>j. fmul (fsub (bcast_at A i j) (bcast_at B i j))
                                           (fsub (bcast_at A i j) (bcast_at B i j)))
                                 [0..<bcast_len (ncols A) (ncols B)])
                        [0..<bcast_len (length (rows A)) (length (rows B))]"
    by (simp add: nd_sub_rows [OF D assms(2,3)] o_def)
  finally show ?thesis
    by (simp add: m nd_mean_def elementwise_mse_def fmul_commute [of _ "Fin 100"])
qed

section \<open>Properties of the steps of a call\<close>

subsection \<open>Encoding and logging\<close>

lemma encode_eq:
  "encode m ctx sents spb bs w =
     (encode_fn m ctx sents spb bs, w\<lparr>trace := trace w @ [EncodeCall (enc_id m) ctx sents]\<rparr>)"
  by (simp add: encode_def)

lemma log_csv_skip:
  "output_path = None \<or> \<not> write_csv self \<Longrightarrow> log_csv self output_path epoch steps m w = (Inr (), w)"
  by (auto simp: log_csv_def split: option.splits)

lemma log_csv_denied:
  "write_csv self \<Longrightarrow> open_denied w (os_path_join dir (csv_file self)) \<Longrightarrow>
   fst (log_csv self (Some dir) epoch steps m w) = Inl OSError"
  by (simp add: log_csv_def open_file_def Let_def)

lemma log_csv_write:
  assumes "write_csv self" "p = os_path_join dir (csv_file self)" "\<not> open_denied w p"
  shows "log_csv self (Some dir) epoch steps m w =
     (Inr (),
      w\<lparr>trace := trace w @ [OpenCall p (if files w p = None then ModeW else ModeA)],
        files := (files w)(p \<mapsto>
          (case files w p of
             None \<Rightarrow> [map CStr (csv_headers self), [CInt epoch, CInt steps, CFloat m]]
           | Some old \<Rightarrow> old @ [[CInt epoch, CInt steps, CFloat m]]))\<rparr>)"
  using assms
  by (auto simp: log_csv_def open_file_def writerow_def os_path_isfile_def Let_def)

lemma log_csv_error: "fst (log_csv self output_path epoch steps m w) = Inl e \<Longrightarrow> e = OSError"
  by (auto simp: log_csv_def open_file_def Let_def split: option.splits if_splits)

lemma log_csv_frame:
  "log_csv self output_path epoch steps m w = (r, w') \<Longrightarrow>
     filter is_encode (trace w') = filter is_encode (trace w) \<and> open_denied w' = open_denied w
     \<and> model_card w' = model_card w"
  by (auto simp: log_csv_def open_file_def writerow_def Let_def split: option.splits if_splits)

lemma call_success:
  assumes "call self model output_path epoch steps w = (Inr ms, self', w')"
  shows "\<exists>T m w2. encode_fn model (truncate_dim self) (target_sentences self)
                   (show_progress_bar self) (batch_size self) = Inr T
          \<and> compute_mse (source_embeddings self) T = Inr m
          \<and> log_csv self output_path epoch steps m
               (w\<lparr>trace := trace w @ [EncodeCall (enc_id model) (truncate_dim self)
                                        (target_sentences self)]\<rparr>) = (Inr (), w2)
          \<and> ms = prefix_name_to_metrics [(''negative_mse'', fneg m)] (name self)
          \<and> self' = self
          \<and> w' = store_metrics_in_model_card_data model ms w2"
  using assms
  by (auto simp: call_def encode_targets_def encode_eq Let_def split: sum.splits prod.splits)

lemma call_frame:
  assumes "call self model output_path epoch steps w = (r, self', w')"
  shows "self' = self
     \<and> filter is_encode (trace w') = filter is_encode (trace w) @
          [EncodeCall (enc_id model) (truncate_dim self) (target_sentences self)]
     \<and> open_denied w' = open_denied w"
  using assms
  by (auto simp: call_def encode_targets_def encode_eq Let_def store_metrics_in_model_card_data_def
      split: sum.splits prod.splits dest!: log_csv_frame)

lemma init_success:
  assumes "init src tgt tm spb bs nm wcsv tdim w0 = (Inr ev, w1)"
  shows "\<exists>teacher. tm = Some teacher
     \<and> encode_fn teacher tdim src spb bs = Inr (source_embeddings ev)
     \<and> w1 = w0\<lparr>trace := trace w0 @ [EncodeCall (enc_id teacher) tdim src]\<rparr>
     \<and> truncate_dim ev = tdim \<and> target_sentences ev = tgt \<and> show_progress_bar ev = spb
     \<and> batch_size ev = bs \<and> name ev = nm \<and> write_csv ev = wcsv
     \<and> csv_file ev = ''mse_evaluation_'' @ nm @ ''_results.csv''
     \<and> csv_headers ev = [''epoch'', ''steps'', ''MSE'']"
  using assms
  by (auto simp: init_def encode_eq split: option.splits sum.splits)

lemma calls_frame:
  "calls self cs w = (self', w') \<Longrightarrow>
     self' = self \<and>
     filter is_encode (trace w') = filter is_encode (trace w) @
       map (\<lambda>(model, rest). EncodeCall (enc_id model) (truncate_dim self) (target_sentences self)) cs"
proof (induction cs arbitrary: w)
  case Nil
  then show ?case by simp
next
  case (Cons c cs)
  obtain model output_path epoch steps where c: "c = (model, output_path, epoch, steps)"
    by (cases c) auto
  obtain r s1 w1 where step: "call self model output_path epoch steps w = (r, s1, w1)"
    by (cases "call self model output_path epoch steps w") auto
  from call_frame [OF step] have s1: "s1 = self"
    and t1: "filter is_encode (trace w1) = filter is_encode (trace w) @
          [EncodeCall (enc_id model) (truncate_dim self) (target_sentences self)]" by simp_all
  from Cons.prems have "calls self cs w1 = (self', w')" by (simp add: c step s1)
  from Cons.IH [OF this] show ?case by (simp add: c t1)
qed

subsection \<open>What a call returns and writes\<close>

lemma call_logged:
  assumes "call self model (Some dir) epoch steps w = (Inr ms, self', w')"
    and "write_csv self" and "p = os_path_join dir (csv_file self)"
  shows "\<exists>T m. encode_fn model (truncate_dim self) (target_sentences self)
                 (show_progress_bar self) (batch_size self) = Inr T
      \<and> compute_mse (source_embeddings self) T = Inr m
      \<and> ms = prefix_name_to_metrics [(''negative_mse'', fneg m)] (name self)
      \<and> self' = self
      \<and> files w' = (files w)(p \<mapsto>
           (case files w p of
              None \<Rightarrow> [map CStr (csv_headers self), [CInt epoch, CInt steps, CFloat m]]
            | Some old \<Rightarrow> old @ [[CInt epoch, CInt steps, CFloat m]]))
      \<and> filter is_open (trace w') =
          filter is_open (trace w) @ [OpenCall p (if files w p = None then ModeW else ModeA)]"
proof -
  let ?w1 = "w\<lparr>trace := trace w @ [EncodeCall (enc_id model) (truncate_dim self)
                                        (target_sentences self)]\<rparr>"
  from call_success [OF assms(1)] obtain T m w2 where
    T: "encode_fn model (truncate_dim self) (target_sentences self)
          (show_progress_bar self) (batch_size self) = Inr T"
    and m: "compute_mse (source_embeddings self) T = Inr m"
    and lg: "log_csv self (Some dir) epoch steps m ?w1 = (Inr (), w2)"
    and ms: "ms = prefix_name_to_metrics [(''negative_mse'', fneg m)] (name self)"
    and self': "self' = self"
    and w': "w' = store_metrics_in_model_card_data model ms w2"
    by blast
  have nd: "\<not> open_denied ?w1 p"
  proof
    assume "open_denied ?w1 p"
    then have "fst (log_csv self (Some dir) epoch steps m ?w1) = Inl OSError"
      using assms(2) unfolding assms(3) by (rule log_csv_denied [rotated])
    with lg show False by simp
  qed
  from log_csv_write [OF assms(2,3) nd, of epoch steps m] lg
  have w2: "w2 = ?w1\<lparr>trace := trace ?w1 @ [OpenCall p (if files ?w1 p = None then ModeW else ModeA)],
        files := (files ?w1)(p \<mapsto>
          (case files ?w1 p of
             None \<Rightarrow> [map CStr (csv_headers self), [CInt epoch, CInt steps, CFloat m]]
           | Some old \<Rightarrow> old @ [[CInt epoch, CInt steps, CFloat m]]))\<rparr>"
    by simp
  have f: "files w' = (files w)(p \<mapsto>
           (case files w p of
              None \<Rightarrow> [map CStr (csv_headers self), [CInt epoch, CInt steps, CFloat m]]
            | Some old \<Rightarrow> old @ [[CInt epoch, CInt steps, CFloat m]]))"
    by (simp add: w' w2 store_metrics_in_model_card_data_def)
  have t: "filter is_open (trace w') =
          filter is_open (trace w) @ [OpenCall p (if files w p = None then ModeW else ModeA)]"
    by (simp add: w' w2 store_metrics_in_model_card_data_def)
  from T m ms self' f t show ?thesis by blast
qed

lemma log_csv_allowed:
  "\<not> (write_csv self \<and> open_denied w (os_path_join dir (csv_file self))) \<Longrightarrow>
   fst (log_csv self (Some dir) epoch steps m w) = Inr ()"
  by (cases "write_csv self") (simp_all add: log_csv_write log_csv_skip)

lemma log_csv_result:
  "fst (log_csv self output_path epoch steps m w) =
     (if \<exists>dir. output_path = Some dir \<and> write_csv self
               \<and> open_denied w (os_path_join dir (csv_file self))
      then Inl OSError else Inr ())"
proof (cases output_path)
  case None
  then show ?thesis by (simp add: log_csv_skip)
next
  case (Some dir)
  then show ?thesis
    using log_csv_denied [of self w dir epoch steps m] log_csv_allowed [of self w dir epoch steps m]
    by auto
qed

lemma call_result:
  "fst (call self model output_path epoch steps w) =
     (case encode_fn model (truncate_dim self) (target_sentences self)
             (show_progress_bar self) (batch_size self) of
        Inl e \<Rightarrow> Inl e
      | Inr T \<Rightarrow>
          (case compute_mse (source_embeddings self) T of
             Inl e \<Rightarrow> Inl e
           | Inr m \<Rightarrow>
               (case fst (log_csv self output_path epoch steps m
                            (w\<lparr>trace := trace w @ [EncodeCall (enc_id model) (truncate_dim self)
                                                     (target_sentences self)]\<rparr>)) of
                  Inl e \<Rightarrow> Inl e
                | Inr u \<Rightarrow> Inr (prefix_name_to_metrics [(''negative_mse'', fneg m)] (name self)))))"
  by (auto simp: call_def encode_targets_def encode_eq Let_def split: sum.splits prod.splits)

lemma compute_mse_error: "compute_mse A B = Inl e \<Longrightarrow> e = ValueError \<and> \<not> broadcastable A B"
  using nd_sub_broadcastable [of A B]
  by (auto simp: compute_mse_def split: sum.splits dest: nd_sub_error)

lemma compute_mse_value: "compute_mse A B = Inr m \<Longrightarrow> broadcastable A B"
  using nd_sub_broadcastable [of A B]
  by (auto simp: compute_mse_def split: sum.splits)

section \<open>The claims\<close>

text \<open>
  Claim C1. Every call that returns gives a mapping with one entry. Its key is
  \<^verbatim>\<open>negative_mse\<close>, prefixed with the evaluator's name when the name is not empty; its
  value is the negation of the MSE computed in this call from the cached source
  embeddings and the embeddings of the target sentences. For rectangular matrices the
  MSE is 100 times the mean of the squared differences, element by element of numpy's
  subtraction, whatever the two shapes are; for two matrices of one shape it is the
  formula of the specification, position by position.
\<close>

theorem negative_mse_metric:
  assumes "call self model output_path epoch steps w = (Inr ms, self', w')"
  shows "\<exists>T m. encode_fn model (truncate_dim self) (target_sentences self)
                 (show_progress_bar self) (batch_size self) = Inr T
      \<and> compute_mse (source_embeddings self) T = Inr m
      \<and> ms = [(if name self = [] then ''negative_mse'' else name self @ ''_negative_mse'', fneg m)]
      \<and> (wf_ndarray (source_embeddings self) \<and> wf_ndarray T \<longrightarrow>
            m = elementwise_mse (source_embeddings self) T
            \<and> (nd_shape (source_embeddings self) = nd_shape T \<longrightarrow>
                 m = spec_mse (source_embeddings self) T))"
proof -
  from call_success [OF assms] obtain T m where
    T: "encode_fn model (truncate_dim self) (target_sentences self)
          (show_progress_bar self) (batch_size self) = Inr T"
    and m: "compute_mse (source_embeddings self) T = Inr m"
    and ms: "ms = prefix_name_to_metrics [(''negative_mse'', fneg m)] (name self)"
    by blast
  have key: "ms = [(if name self = [] then ''negative_mse'' else name self @ ''_negative_mse'',
               fneg m)]"
    by (simp add: ms prefix_name_to_metrics_def)
  have spec: "wf_ndarray (source_embeddings self) \<and> wf_ndarray T \<longrightarrow>
            m = elementwise_mse (source_embeddings self) T
            \<and> (nd_shape (source_embeddings self) = nd_shape T \<longrightarrow>
                 m = spec_mse (source_embeddings self) T)"
    using compute_mse_bcast [OF m] compute_mse_same_shape [of "source_embeddings self" T] m
    by auto
  from T m key spec show ?thesis by blast
qed

text \<open>
  Claim C1 at two concrete calls with evaluator name \<^verbatim>\<open>dev\<close>: one source row against two
  target rows, and two rows against two.
\<close>

theorem negative_mse_metric_witness:
  "call (toy_evaluator [''a''] [''bb'', ''ccc'']) (toy_encoder 2 1) (Some ''out'') 1 2 empty_world
     = (Inr [(''dev_negative_mse'', Fin (- 250))], toy_evaluator [''a''] [''bb'', ''ccc''],
        snd (snd (call (toy_evaluator [''a''] [''bb'', ''ccc'']) (toy_encoder 2 1)
                    (Some ''out'') 1 2 empty_world)))
   \<and> wf_ndarray \<lparr>ncols = 2, rows = [[Fin 1, Fin 1]]\<rparr>
   \<and> wf_ndarray \<lparr>ncols = 2, rows = [[Fin 2, Fin 2], [Fin 3, Fin 3]]\<rparr>
   \<and> elementwise_mse \<lparr>ncols = 2, rows = [[Fin 1, Fin 1]]\<rparr>
                \<lparr>ncols = 2, rows = [[Fin 2, Fin 2], [Fin 3, Fin 3]]\<rparr> = Fin 250
   \<and> call (toy_evaluator [''a'', ''bb''] [''ccc'', ''dddd'']) (toy_encoder 2 1) (Some ''out'') 1 2 empty_world
     = (Inr [(''dev_negative_mse'', Fin (- 400))], toy_evaluator [''a'', ''bb''] [''ccc'', ''dddd''],
        snd (snd (call (toy_evaluator [''a'', ''bb''] [''ccc'', ''dddd'']) (toy_encoder 2 1)
                    (Some ''out'') 1 2 empty_world)))
   \<and> wf_ndarray \<lparr>ncols = 2, rows = [[Fin 1, Fin 1], [Fin 2, Fin 2]]\<rparr>
   \<and> wf_ndarray \<lparr>ncols = 2, rows = [[Fin 3, Fin 3], [Fin 4, Fin 4]]\<rparr>
   \<and> nd_shape \<lparr>ncols = 2, rows = [[Fin 1, Fin 1], [Fin 2, Fin 2]]\<rparr>
       = nd_shape \<lparr>ncols = 2, rows = [[Fin 3, Fin 3], [Fin 4, Fin 4]]\<rparr>
   \<and> elementwise_mse \<lparr>ncols = 2, rows = [[Fin 1, Fin 1], [Fin 2, Fin 2]]\<rparr>
                \<lparr>ncols = 2, rows = [[Fin 3, Fin 3], [Fin 4, Fin 4]]\<rparr> = Fin 400
   \<and> spec_mse \<lparr>ncols = 2, rows = [[Fin 1, Fin 1], [Fin 2, Fin 2]]\<rparr>
               \<lparr>ncols = 2, rows = [[Fin 3, Fin 3], [Fin 4, Fin 4]]\<rparr> = Fin 400"
proof -
  let ?e1 = "toy_evaluator [''a''] [''bb'', ''ccc'']"
  let ?S1 = "\<lparr>ncols = 2, rows = [[Fin 1, Fin 1]]\<rparr>"
  let ?T1 = "\<lparr>ncols = 2, rows = [[Fin 2, Fin 2], [Fin 3, Fin 3]]\<rparr>"
  let ?e2 = "toy_evaluator [''a'', ''bb''] [''ccc'', ''dddd'']"
  let ?S2 = "\<lparr>ncols = 2, rows = [[Fin 1, Fin 1], [Fin 2, Fin 2]]\<rparr>"
  let ?T2 = "\<lparr>ncols = 2, rows = [[Fin 3, Fin 3], [Fin 4, Fin 4]]\<rparr>"
  have h1: "call ?e1 (toy_encoder 2 1) (Some ''out'') 1 2 empty_world
     = (Inr [(''dev_negative_mse'', Fin (- 250))], ?e1,
        snd (snd (call ?e1 (toy_encoder 2 1) (Some ''out'') 1 2 empty_world)))"
    by (simp add: ev_simps)
  have h2: "call ?e2 (toy_encoder 2 1) (Some ''out'') 1 2 empty_world
     = (Inr [(''dev_negative_mse'', Fin (- 400))], ?e2,
        snd (snd (call ?e2 (toy_encoder 2 1) (Some ''out'') 1 2 empty_world)))"
    by (simp add: ev_simps)
  have wf1: "wf_ndarray ?S1" "wf_ndarray ?T1" by (simp_all add: wf_ndarray_def)
  have wf2: "wf_ndarray ?S2" "wf_ndarray ?T2" "nd_shape ?S2 = nd_shape ?T2"
    by (simp_all add: wf_ndarray_def nd_shape_def)
  have S1: "source_embeddings ?e1 = ?S1" by (simp add: ev_simps)
  have S2: "source_embeddings ?e2 = ?S2" by (simp add: ev_simps)
  from negative_mse_metric [OF h1] obtain T m where
    T: "encode_fn (toy_encoder 2 1) (truncate_dim ?e1) (target_sentences ?e1)
          (show_progress_bar ?e1) (batch_size ?e1) = Inr T"
    and ms: "[(''dev_negative_mse'', Fin (- 250))] =
       [(if name ?e1 = [] then ''negative_mse'' else name ?e1 @ ''_negative_mse'', fneg m)]"
    and spec: "wf_ndarray (source_embeddings ?e1) \<and> wf_ndarray T \<longrightarrow>
            m = elementwise_mse (source_embeddings ?e1) T
            \<and> (nd_shape (source_embeddings ?e1) = nd_shape T \<longrightarrow>
                 m = spec_mse (source_embeddings ?e1) T)"
    by blast
  have "T = ?T1" using T by (simp add: ev_simps)
  with spec have "wf_ndarray ?S1 \<and> wf_ndarray ?T1 \<longrightarrow>
            m = elementwise_mse ?S1 ?T1 \<and> (nd_shape ?S1 = nd_shape ?T1 \<longrightarrow> m = spec_mse ?S1 ?T1)"
    by (simp only: S1)
  with wf1 have one: "m = elementwise_mse ?S1 ?T1" by blast
  from ms have m250: "m = Fin 250" by (cases m) simp_all
  have b1: "elementwise_mse ?S1 ?T1 = Fin 250" using one m250 by metis
  from negative_mse_metric [OF h2] obtain T' m' where
    T': "encode_fn (toy_encoder 2 1) (truncate_dim ?e2) (target_sentences ?e2)
          (show_progress_bar ?e2) (batch_size ?e2) = Inr T'"
    and ms': "[(''dev_negative_mse'', Fin (- 400))] =
       [(if name ?e2 = [] then ''negative_mse'' else name ?e2 @ ''_negative_mse'', fneg m')]"
    and spec': "wf_ndarray (source_embeddings ?e2) \<and> wf_ndarray T' \<longrightarrow>
            m' = elementwise_mse (source_embeddings ?e2) T'
            \<and> (nd_shape (source_embeddings ?e2) = nd_shape T' \<longrightarrow>
                 m' = spec_mse (source_embeddings ?e2) T')"
    by blast
  have "T' = ?T2" using T' by (simp add: ev_simps)
  with spec' have "wf_ndarray ?S2 \<and> wf_ndarray ?T2 \<longrightarrow>
            m' = elementwise_mse ?S2 ?T2 \<and> (nd_shape ?S2 = nd_shape ?T2 \<longrightarrow> m' = spec_mse ?S2 ?T2)"
    by (simp only: S2)
  with wf2 have both: "m' = elementwise_mse ?S2 ?T2 \<and> m' = spec_mse ?S2 ?T2" by blast
  from ms' have m400: "m' = Fin 400" by (cases m') simp_all
  have b2: "elementwise_mse ?S2 ?T2 = Fin 400" using both m400 by metis
  have s2: "spec_mse ?S2 ?T2 = Fin 400" using both m400 by metis
  show ?thesis by (intro conjI h1 wf1 b1 h2 wf2 b2 s2)
qed

text \<open>
  Claim C2. Construction encodes the source sentences with the teacher, once, and
  stores the result. Any run of calls leaves the evaluator, and so its source
  embeddings, as construction made them; each call encodes the target sentences with
  the model passed to it and nothing else. The encoder calls made are therefore the one
  of the teacher on the source sentences, followed by one call per invocation on the
  target sentences.
\<close>

theorem source_embeddings_encoded_once:
  assumes "init source_sentences target_sents teacher_model spb bs nm wcsv tdim w0 = (Inr ev, w1)"
    and "calls ev cs w1 = (ev', w2)"
  shows "\<exists>teacher. teacher_model = Some teacher
      \<and> encode_fn teacher tdim source_sentences spb bs = Inr (source_embeddings ev)
      \<and> ev' = ev
      \<and> source_embeddings ev' = source_embeddings ev
      \<and> filter is_encode (trace w2) =
          filter is_encode (trace w0)
            @ EncodeCall (enc_id teacher) tdim source_sentences
            # map (\<lambda>(model, rest). EncodeCall (enc_id model) tdim target_sents) cs"
proof -
  from init_success [OF assms(1)] obtain teacher where
    t: "teacher_model = Some teacher"
    and e: "encode_fn teacher tdim source_sentences spb bs = Inr (source_embeddings ev)"
    and w1: "w1 = w0\<lparr>trace := trace w0 @ [EncodeCall (enc_id teacher) tdim source_sentences]\<rparr>"
    and td: "truncate_dim ev = tdim" and tg: "target_sentences ev = target_sents"
    by blast
  from calls_frame [OF assms(2)] have same: "ev' = ev"
    and tr: "filter is_encode (trace w2) = filter is_encode (trace w1) @
       map (\<lambda>(model, rest). EncodeCall (enc_id model) (truncate_dim ev) (target_sentences ev)) cs"
    by simp_all
  have "filter is_encode (trace w2) =
          filter is_encode (trace w0)
            @ EncodeCall (enc_id teacher) tdim source_sentences
            # map (\<lambda>(model, rest). EncodeCall (enc_id model) tdim target_sents) cs"
    by (simp add: tr w1 td tg)
  with t e same show ?thesis by blast
qed

text \<open>
  Claim C2 at a concrete run: construction followed by two calls with different models.
\<close>

theorem source_embeddings_encoded_once_witness:
  "init [''a'', ''bb''] [''ccc'', ''dddd''] (Some (toy_encoder 1 1)) False 32 ''dev'' True None empty_world
     = (Inr (toy_evaluator [''a'', ''bb''] [''ccc'', ''dddd'']),
        snd (init [''a'', ''bb''] [''ccc'', ''dddd''] (Some (toy_encoder 1 1)) False 32 ''dev'' True None
               empty_world))
   \<and> source_embeddings
        (fst (calls (toy_evaluator [''a'', ''bb''] [''ccc'', ''dddd''])
                [(toy_encoder 2 1, Some ''out'', 1, 2), (toy_encoder 3 2, None, 2, 4)]
                (snd (init [''a'', ''bb''] [''ccc'', ''dddd''] (Some (toy_encoder 1 1)) False 32 ''dev''
                        True None empty_world))))
       = \<lparr>ncols = 2, rows = [[Fin 1, Fin 1], [Fin 2, Fin 2]]\<rparr>
   \<and> filter is_encode
        (trace (snd (calls (toy_evaluator [''a'', ''bb''] [''ccc'', ''dddd''])
                [(toy_encoder 2 1, Some ''out'', 1, 2), (toy_encoder 3 2, None, 2, 4)]
                (snd (init [''a'', ''bb''] [''ccc'', ''dddd''] (Some (toy_encoder 1 1)) False 32 ''dev''
                        True None empty_world)))))
       = [EncodeCall 1 None [''a'', ''bb''], EncodeCall 2 None [''ccc'', ''dddd''],
          EncodeCall 3 None [''ccc'', ''dddd'']]"
proof -
  let ?ev = "toy_evaluator [''a'', ''bb''] [''ccc'', ''dddd'']"
  let ?i = "init [''a'', ''bb''] [''ccc'', ''dddd''] (Some (toy_encoder 1 1)) False 32 ''dev'' True None
              empty_world"
  let ?cs = "[(toy_encoder 2 1, Some ''out'', 1, 2), (toy_encoder 3 2, None, 2, 4)]
               :: (encoder \<times> string option \<times> int \<times> int) list"
  have h1: "?i = (Inr ?ev, snd ?i)" by (simp add: ev_simps)
  have h2: "calls ?ev ?cs (snd ?i) = (fst (calls ?ev ?cs (snd ?i)), snd (calls ?ev ?cs (snd ?i)))"
    by simp
  from source_embeddings_encoded_once [OF h1 h2] obtain teacher where
    t: "Some (toy_encoder 1 1) = Some teacher"
    and e: "encode_fn teacher None [''a'', ''bb''] False 32 = Inr (source_embeddings ?ev)"
    and same: "fst (calls ?ev ?cs (snd ?i)) = ?ev"
    and s: "source_embeddings (fst (calls ?ev ?cs (snd ?i))) = source_embeddings ?ev"
    and tr: "filter is_encode (trace (snd (calls ?ev ?cs (snd ?i)))) =
          filter is_encode (trace empty_world)
            @ EncodeCall (enc_id teacher) None [''a'', ''bb'']
            # map (\<lambda>(model, rest). EncodeCall (enc_id model) None [''ccc'', ''dddd'']) ?cs"
    by (elim exE conjE) (rule that; assumption)
  from t have t': "teacher = toy_encoder 1 1" by simp
  have S': "source_embeddings ?ev = \<lparr>ncols = 2, rows = [[Fin 1, Fin 1], [Fin 2, Fin 2]]\<rparr>"
    by (simp add: ev_simps)
  have tr': "filter is_encode (trace (snd (calls ?ev ?cs (snd ?i)))) =
       [EncodeCall 1 None [''a'', ''bb''], EncodeCall 2 None [''ccc'', ''dddd''],
          EncodeCall 3 None [''ccc'', ''dddd'']]"
    unfolding tr t' by (simp add: toy_encoder_def empty_world_def)
  have s': "source_embeddings (fst (calls ?ev ?cs (snd ?i))) = \<lparr>ncols = 2, rows = [[Fin 1, Fin 1], [Fin 2, Fin 2]]\<rparr>"
    unfolding s by (rule S')
  show ?thesis by (intro conjI h1 s' tr')
qed

text \<open>
  Claim C3. With \<^verbatim>\<open>write_csv\<close> set and an output path given, a call that returns has
  written to the file \<^verbatim>\<open>os.path.join(output_path, "mse_evaluation_" + name + "_results.csv")\<close>,
  which is \<^verbatim>\<open><output_path>/mse_evaluation_<name>_results.csv\<close> for a path that does not end in
  a slash. A missing file is opened in mode \<^verbatim>\<open>w\<close> and receives the header row and then the
  data row; an existing file is opened in mode \<^verbatim>\<open>a\<close> and receives the data row only, after
  its old contents. The data row holds the epoch, the steps and the MSE. No other file
  changes and \<^verbatim>\<open>open\<close> is called once.
\<close>

theorem csv_log_row:
  assumes "init source_sentences target_sents teacher_model spb bs nm True tdim w0 = (Inr ev, w1)"
    and "call ev model (Some dir) epoch steps w = (Inr ms, ev', w')"
    and "p = os_path_join dir (''mse_evaluation_'' @ nm @ ''_results.csv'')"
  shows "\<exists>T m. encode_fn model tdim target_sents spb bs = Inr T
      \<and> compute_mse (source_embeddings ev) T = Inr m
      \<and> files w' p = Some
           (case files w p of
              None \<Rightarrow> [[CStr ''epoch'', CStr ''steps'', CStr ''MSE''],
                        [CInt epoch, CInt steps, CFloat m]]
            | Some old \<Rightarrow> old @ [[CInt epoch, CInt steps, CFloat m]])
      \<and> (\<forall>q. q \<noteq> p \<longrightarrow> files w' q = files w q)
      \<and> filter is_open (trace w') =
          filter is_open (trace w) @ [OpenCall p (if files w p = None then ModeW else ModeA)]
      \<and> (dir \<noteq> [] \<and> last dir \<noteq> CHR ''/''
            \<longrightarrow> p = dir @ ''/mse_evaluation_'' @ nm @ ''_results.csv'')"
proof -
  from init_success [OF assms(1)] have
    fields: "truncate_dim ev = tdim" "target_sentences ev = target_sents"
      "show_progress_bar ev = spb" "batch_size ev = bs" "write_csv ev"
      "csv_file ev = ''mse_evaluation_'' @ nm @ ''_results.csv''"
      "csv_headers ev = [''epoch'', ''steps'', ''MSE'']"
    by auto
  have p: "p = os_path_join dir (csv_file ev)" by (simp add: assms(3) fields)
  from call_logged [OF assms(2) fields(5) p] obtain T m where
    T: "encode_fn model tdim target_sents spb bs = Inr T"
    and m: "compute_mse (source_embeddings ev) T = Inr m"
    and f: "files w' = (files w)(p \<mapsto>
           (case files w p of
              None \<Rightarrow> [map CStr (csv_headers ev), [CInt epoch, CInt steps, CFloat m]]
            | Some old \<Rightarrow> old @ [[CInt epoch, CInt steps, CFloat m]]))"
    and t: "filter is_open (trace w') =
          filter is_open (trace w) @ [OpenCall p (if files w p = None then ModeW else ModeA)]"
    unfolding fields by blast
  have f1: "files w' p = Some
           (case files w p of
              None \<Rightarrow> [[CStr ''epoch'', CStr ''steps'', CStr ''MSE''],
                        [CInt epoch, CInt steps, CFloat m]]
            | Some old \<Rightarrow> old @ [[CInt epoch, CInt steps, CFloat m]])"
    by (simp add: f fields split: option.splits)
  have f2: "\<forall>q. q \<noteq> p \<longrightarrow> files w' q = files w q" by (simp add: f)
  have loc: "dir \<noteq> [] \<and> last dir \<noteq> CHR ''/''
            \<longrightarrow> p = dir @ ''/mse_evaluation_'' @ nm @ ''_results.csv''"
    by (simp add: assms(3) os_path_join_def)
  from T m f1 f2 t loc show ?thesis by blast
qed

text \<open>
  Claim C3 at a concrete call into a world without files.
\<close>

theorem csv_log_row_witness:
  "init [''a'', ''bb''] [''ccc'', ''dddd''] (Some (toy_encoder 1 1)) False 32 ''dev'' True None empty_world
     = (Inr (toy_evaluator [''a'', ''bb''] [''ccc'', ''dddd'']),
        snd (init [''a'', ''bb''] [''ccc'', ''dddd''] (Some (toy_encoder 1 1)) False 32 ''dev'' True None
               empty_world))
   \<and> call (toy_evaluator [''a'', ''bb''] [''ccc'', ''dddd'']) (toy_encoder 2 1) (Some ''out'') 1 2 empty_world
     = (Inr [(''dev_negative_mse'', Fin (- 400))], toy_evaluator [''a'', ''bb''] [''ccc'', ''dddd''],
        snd (snd (call (toy_evaluator [''a'', ''bb''] [''ccc'', ''dddd'']) (toy_encoder 2 1)
                    (Some ''out'') 1 2 empty_world)))
   \<and> ''out'' \<noteq> [] \<and> last ''out'' \<noteq> CHR ''/''
   \<and> os_path_join ''out'' (''mse_evaluation_'' @ ''dev'' @ ''_results.csv'')
       = ''out/mse_evaluation_dev_results.csv''
   \<and> ''out/other.csv'' \<noteq> ''out/mse_evaluation_dev_results.csv''
   \<and> files (snd (snd (call (toy_evaluator [''a'', ''bb''] [''ccc'', ''dddd'']) (toy_encoder 2 1)
                         (Some ''out'') 1 2 empty_world))) ''out/other.csv'' = None
   \<and> files (snd (snd (call (toy_evaluator [''a'', ''bb''] [''ccc'', ''dddd'']) (toy_encoder 2 1)
                         (Some ''out'') 1 2 empty_world))) ''out/mse_evaluation_dev_results.csv''
       = Some [[CStr ''epoch'', CStr ''steps'', CStr ''MSE''], [CInt 1, CInt 2, CFloat (Fin 400)]]"
proof -
  let ?ev = "toy_evaluator [''a'', ''bb''] [''ccc'', ''dddd'']"
  let ?i = "init [''a'', ''bb''] [''ccc'', ''dddd''] (Some (toy_encoder 1 1)) False 32 ''dev'' True None
              empty_world"
  let ?c = "call ?ev (toy_encoder 2 1) (Some ''out'') 1 2 empty_world"
  let ?p = "os_path_join ''out'' (''mse_evaluation_'' @ ''dev'' @ ''_results.csv'')"
  have h1: "?i = (Inr ?ev, snd ?i)" by (simp add: ev_simps)
  have h2: "?c = (Inr [(''dev_negative_mse'', Fin (- 400))], ?ev, snd (snd ?c))"
    by (simp add: ev_simps)
  have h3: "?p = ?p" by (rule refl)
  have d: "''out'' \<noteq> [] \<and> last ''out'' \<noteq> CHR ''/''" by simp
  have ne: "''out/other.csv'' \<noteq> ''out/mse_evaluation_dev_results.csv''" by simp
  from csv_log_row [OF h1 h2 h3] obtain T m where
    T: "encode_fn (toy_encoder 2 1) None [''ccc'', ''dddd''] False 32 = Inr T"
    and m: "compute_mse (source_embeddings ?ev) T = Inr m"
    and f: "files (snd (snd ?c)) ?p = Some
           (case files empty_world ?p of
              None \<Rightarrow> [[CStr ''epoch'', CStr ''steps'', CStr ''MSE''], [CInt 1, CInt 2, CFloat m]]
            | Some old \<Rightarrow> old @ [[CInt 1, CInt 2, CFloat m]])"
    and o: "\<forall>q. q \<noteq> ?p \<longrightarrow> files (snd (snd ?c)) q = files empty_world q"
    and loc: "''out'' \<noteq> [] \<and> last ''out'' \<noteq> CHR ''/''
            \<longrightarrow> ?p = ''out'' @ ''/mse_evaluation_'' @ ''dev'' @ ''_results.csv''"
    by blast
  from loc d have p: "?p = ''out/mse_evaluation_dev_results.csv''" by simp
  have T': "T = \<lparr>ncols = 2, rows = [[Fin 3, Fin 3], [Fin 4, Fin 4]]\<rparr>"
    using T by (simp add: ev_simps)
  have m': "m = Fin 400" using m unfolding T' by (simp add: ev_simps)
  from o ne have o': "files (snd (snd ?c)) ''out/other.csv'' = None"
    unfolding p by (simp add: empty_world_def)
  from f have f': "files (snd (snd ?c)) ''out/mse_evaluation_dev_results.csv''
       = Some [[CStr ''epoch'', CStr ''steps'', CStr ''MSE''], [CInt 1, CInt 2, CFloat (Fin 400)]]"
    unfolding p m' by (simp add: empty_world_def)
  from d have d1: "''out'' \<noteq> []" and d2: "last ''out'' \<noteq> CHR ''/''" by simp_all
  show ?thesis by (intro conjI h1 h2 d1 d2 p ne o' f')
qed

text \<open>
  Claim C4 says that the MSE is non-negative and the reported metric non-positive for
  every pair of embedding matrices. Two matrices without rows (empty sentence lists)
  have a mean over no elements, which is NaN, and so has a matrix with a NaN entry;
  NaN is neither \<open>\<ge> 0\<close> nor, negated, \<open>\<le> 0\<close>.
\<close>

theorem mse_nonnegative_counterexample:
  "compute_mse \<lparr>ncols = 2, rows = []\<rparr> \<lparr>ncols = 2, rows = []\<rparr> = Inr NaN
   \<and> compute_mse \<lparr>ncols = 1, rows = [[NaN]]\<rparr> \<lparr>ncols = 1, rows = [[Fin 0]]\<rparr> = Inr NaN
   \<and> \<not> fle (Fin 0) NaN \<and> \<not> fle (fneg NaN) (Fin 0)"
  by (simp add: compute_mse_def nd_sub_def broadcast_dim_def stretch_def nd_square_def
      nd_mean_def fmean_def fsub_def)

text \<open>
  Claim C4, amended. Whenever \<^verbatim>\<open>__call__\<close> returns, the MSE it computed is never
  negative and the reported metric never positive; unless the MSE is NaN it is \<open>\<ge> 0\<close>
  and the metric is \<open>\<le> 0\<close>; and it is not NaN when both matrices are rectangular, have
  at least one row and one column and hold finite values only.
\<close>

theorem mse_nonnegative_unless_nan:
  assumes "call self model output_path epoch steps w = (Inr ms, self', w')"
  shows "\<exists>T m. encode_fn model (truncate_dim self) (target_sentences self)
                 (show_progress_bar self) (batch_size self) = Inr T
      \<and> compute_mse (source_embeddings self) T = Inr m
      \<and> ms = prefix_name_to_metrics [(''negative_mse'', fneg m)] (name self)
      \<and> \<not> flt m (Fin 0) \<and> \<not> flt (Fin 0) (fneg m)
      \<and> (m \<noteq> NaN \<longrightarrow> fle (Fin 0) m \<and> fle (fneg m) (Fin 0))
      \<and> (wf_ndarray (source_embeddings self) \<and> wf_ndarray T
           \<and> all_finite (source_embeddings self) \<and> all_finite T
           \<and> rows (source_embeddings self) \<noteq> [] \<and> rows T \<noteq> []
           \<and> 0 < ncols (source_embeddings self) \<and> 0 < ncols T
         \<longrightarrow> m \<noteq> NaN)"
proof -
  from call_success [OF assms] obtain T m where
    T: "encode_fn model (truncate_dim self) (target_sentences self)
          (show_progress_bar self) (batch_size self) = Inr T"
    and m: "compute_mse (source_embeddings self) T = Inr m"
    and ms: "ms = prefix_name_to_metrics [(''negative_mse'', fneg m)] (name self)"
    by blast
  have sign: "nonneg_or_nan m" using m by (rule compute_mse_sign)
  have a: "\<not> flt m (Fin 0)" "\<not> flt (Fin 0) (fneg m)"
    using sign by (cases m; simp add: nonneg_or_nan_def)+
  have b: "m \<noteq> NaN \<longrightarrow> fle (Fin 0) m \<and> fle (fneg m) (Fin 0)"
    using sign by (cases m) (simp_all add: nonneg_or_nan_def)
  have c: "wf_ndarray (source_embeddings self) \<and> wf_ndarray T
           \<and> all_finite (source_embeddings self) \<and> all_finite T
           \<and> rows (source_embeddings self) \<noteq> [] \<and> rows T \<noteq> []
           \<and> 0 < ncols (source_embeddings self) \<and> 0 < ncols T \<longrightarrow> m \<noteq> NaN"
  proof (intro impI, elim conjE)
    assume "wf_ndarray (source_embeddings self)" "wf_ndarray T"
      "all_finite (source_embeddings self)" "all_finite T"
      "rows (source_embeddings self) \<noteq> []" "rows T \<noteq> []"
      "0 < ncols (source_embeddings self)" "0 < ncols T"
    then have "fin_nonneg m" by (rule compute_mse_finite [OF m])
    then show "m \<noteq> NaN" by (simp add: fin_nonneg_fle)
  qed
  from T m ms a b c show ?thesis by blast
qed

text \<open>
  The amended claim C4 at a concrete call: two source and two target sentences, MSE 400.
\<close>

theorem mse_nonnegative_unless_nan_witness:
  "call (toy_evaluator [''a'', ''bb''] [''ccc'', ''dddd'']) (toy_encoder 2 1) (Some ''out'') 1 2 empty_world
     = (Inr [(''dev_negative_mse'', Fin (- 400))], toy_evaluator [''a'', ''bb''] [''ccc'', ''dddd''],
        snd (snd (call (toy_evaluator [''a'', ''bb''] [''ccc'', ''dddd'']) (toy_encoder 2 1)
                    (Some ''out'') 1 2 empty_world)))
   \<and> compute_mse \<lparr>ncols = 2, rows = [[Fin 1, Fin 1], [Fin 2, Fin 2]]\<rparr>
                  \<lparr>ncols = 2, rows = [[Fin 3, Fin 3], [Fin 4, Fin 4]]\<rparr> = Inr (Fin 400)
   \<and> fle (Fin 0) (Fin 400) \<and> fle (fneg (Fin 400)) (Fin 0)"
proof -
  have h: "call (toy_evaluator [''a'', ''bb''] [''ccc'', ''dddd'']) (toy_encoder 2 1) (Some ''out'') 1 2 empty_world
     = (Inr [(''dev_negative_mse'', Fin (- 400))], toy_evaluator [''a'', ''bb''] [''ccc'', ''dddd''],
        snd (snd (call (toy_evaluator [''a'', ''bb''] [''ccc'', ''dddd'']) (toy_encoder 2 1)
                    (Some ''out'') 1 2 empty_world)))"
    by (simp add: ev_simps)
  from mse_nonnegative_unless_nan [OF h] obtain T m where
    T: "encode_fn (toy_encoder 2 1)
          (truncate_dim (toy_evaluator [''a'', ''bb''] [''ccc'', ''dddd'']))
          (target_sentences (toy_evaluator [''a'', ''bb''] [''ccc'', ''dddd'']))
          (show_progress_bar (toy_evaluator [''a'', ''bb''] [''ccc'', ''dddd'']))
          (batch_size (toy_evaluator [''a'', ''bb''] [''ccc'', ''dddd''])) = Inr T"
    and m: "compute_mse (source_embeddings (toy_evaluator [''a'', ''bb''] [''ccc'', ''dddd''])) T = Inr m"
    and ms: "[(''dev_negative_mse'', Fin (- 400))] =
       prefix_name_to_metrics [(''negative_mse'', fneg m)]
         (name (toy_evaluator [''a'', ''bb''] [''ccc'', ''dddd'']))"
    and nn: "m \<noteq> NaN \<longrightarrow> fle (Fin 0) m \<and> fle (fneg m) (Fin 0)"
    by blast
  have T': "T = \<lparr>ncols = 2, rows = [[Fin 3, Fin 3], [Fin 4, Fin 4]]\<rparr>"
    using T by (simp add: ev_simps)
  have S': "source_embeddings (toy_evaluator [''a'', ''bb''] [''ccc'', ''dddd''])
              = \<lparr>ncols = 2, rows = [[Fin 1, Fin 1], [Fin 2, Fin 2]]\<rparr>"
    by (simp add: ev_simps)
  have m': "m = Fin 400" using ms by (cases m) (simp_all add: ev_simps)
  from h m nn show ?thesis by (simp add: T' S' m')
qed

text \<open>
  Claim C5 says that identical sentence lists encoded by one encoder give an MSE of 0.
  With empty sentence lists the two matrices are equal and have no rows; the mean over
  no elements is NaN, and the reported metric is NaN.
\<close>

theorem identical_inputs_counterexample:
  "fst (init [] [] (Some (toy_encoder 1 1)) False 32 ''dev'' True None empty_world)
     = Inr (toy_evaluator [] [])
   \<and> source_embeddings (toy_evaluator [] []) = \<lparr>ncols = 2, rows = []\<rparr>
   \<and> encode_fn (toy_encoder 1 1) None [] False 32 = Inr \<lparr>ncols = 2, rows = []\<rparr>
   \<and> compute_mse \<lparr>ncols = 2, rows = []\<rparr> \<lparr>ncols = 2, rows = []\<rparr> = Inr NaN
   \<and> fst (call (toy_evaluator [] []) (toy_encoder 1 1) None (- 1) (- 1) empty_world)
       = Inr [(''dev_negative_mse'', NaN)]"
  by (simp add: ev_simps)

text \<open>
  Claim C5, amended. If the source and the target sentences are the same list and the
  model evaluated is the teacher, the target embeddings are the source embeddings; if
  that matrix is rectangular, has at least one row and one column and holds finite
  values only, the MSE is 0 and a call that gets past the CSV log returns the metric 0
  (the only other outcome is the error of \<^verbatim>\<open>open\<close>).
\<close>

theorem identical_inputs_zero_mse:
  assumes "init sents sents (Some enc) spb bs nm wcsv tdim w0 = (Inr ev, w1)"
    and "wf_ndarray (source_embeddings ev)" and "all_finite (source_embeddings ev)"
    and "rows (source_embeddings ev) \<noteq> []" and "0 < ncols (source_embeddings ev)"
  shows "encode_fn enc (truncate_dim ev) (target_sentences ev) (show_progress_bar ev)
           (batch_size ev) = Inr (source_embeddings ev)
      \<and> compute_mse (source_embeddings ev) (source_embeddings ev) = Inr (Fin 0)
      \<and> fst (call ev enc output_path epoch steps w) =
          (if \<exists>dir. output_path = Some dir \<and> wcsv
                    \<and> open_denied w (os_path_join dir (csv_file ev))
           then Inl OSError
           else Inr (prefix_name_to_metrics [(''negative_mse'', Fin 0)] nm))"
proof -
  from init_success [OF assms(1)] have
    e: "encode_fn enc tdim sents spb bs = Inr (source_embeddings ev)"
    and fields: "truncate_dim ev = tdim" "target_sentences ev = sents"
      "show_progress_bar ev = spb" "batch_size ev = bs" "name ev = nm" "write_csv ev = wcsv"
    by auto
  have z: "compute_mse (source_embeddings ev) (source_embeddings ev) = Inr (Fin 0)"
    using assms(2-5) by (rule compute_mse_self)
  have "fst (call ev enc output_path epoch steps w) =
          (if \<exists>dir. output_path = Some dir \<and> wcsv
                    \<and> open_denied w (os_path_join dir (csv_file ev))
           then Inl OSError
           else Inr (prefix_name_to_metrics [(''negative_mse'', Fin 0)] nm))"
    by (auto simp: call_result fields e z log_csv_result)
  with e z show ?thesis by (simp add: fields)
qed

text \<open>
  The amended claim C5 at a concrete call.
\<close>

theorem identical_inputs_zero_mse_witness:
  "init [''a'', ''bb''] [''a'', ''bb''] (Some (toy_encoder 1 1)) False 32 ''dev'' True None empty_world
     = (Inr (toy_evaluator [''a'', ''bb''] [''a'', ''bb'']),
        snd (init [''a'', ''bb''] [''a'', ''bb''] (Some (toy_encoder 1 1)) False 32 ''dev'' True None
               empty_world))
   \<and> wf_ndarray (source_embeddings (toy_evaluator [''a'', ''bb''] [''a'', ''bb'']))
   \<and> all_finite (source_embeddings (toy_evaluator [''a'', ''bb''] [''a'', ''bb'']))
   \<and> rows (source_embeddings (toy_evaluator [''a'', ''bb''] [''a'', ''bb''])) \<noteq> []
   \<and> 0 < ncols (source_embeddings (toy_evaluator [''a'', ''bb''] [''a'', ''bb'']))
   \<and> fst (call (toy_evaluator [''a'', ''bb''] [''a'', ''bb'']) (toy_encoder 1 1) (Some ''out'') 1 2
             empty_world) = Inr [(''dev_negative_mse'', Fin 0)]"
proof -
  let ?ev = "toy_evaluator [''a'', ''bb''] [''a'', ''bb'']"
  let ?i = "init [''a'', ''bb''] [''a'', ''bb''] (Some (toy_encoder 1 1)) False 32 ''dev'' True None
              empty_world"
  have h1: "?i = (Inr ?ev, snd ?i)" by (simp add: ev_simps)
  have h2: "wf_ndarray (source_embeddings ?ev)" by (simp add: ev_simps)
  have h3: "all_finite (source_embeddings ?ev)" by (simp add: ev_simps)
  have h4: "rows (source_embeddings ?ev) \<noteq> []" by (simp add: ev_simps)
  have h5: "0 < ncols (source_embeddings ?ev)" by (simp add: ev_simps)
  have nd: "\<not> (\<exists>dir. Some ''out'' = Some dir \<and> True
                    \<and> open_denied empty_world (os_path_join dir (csv_file ?ev)))"
    by (simp add: empty_world_def)
  from identical_inputs_zero_mse [OF h1 h2 h3 h4 h5, where output_path = "Some ''out''"
      and w = empty_world and epoch = 1 and steps = 2] nd
  have "fst (call ?ev (toy_encoder 1 1) (Some ''out'') 1 2 empty_world)
          = Inr (prefix_name_to_metrics [(''negative_mse'', Fin 0)] ''dev'')"
    by simp
  then have "fst (call ?ev (toy_encoder 1 1) (Some ''out'') 1 2 empty_world)
          = Inr [(''dev_negative_mse'', Fin 0)]"
    by (simp add: prefix_name_to_metrics_def)
  with h1 h2 h3 h4 h5 show ?thesis by (intro conjI)
qed

text \<open>
  Claim C6. Two calls with \<^verbatim>\<open>write_csv\<close> set and the same output path, the first one made
  when the CSV file does not exist, leave the file with the header row followed by the
  data rows of the two calls, in that order.
\<close>

theorem two_calls_csv:
  assumes "init source_sentences target_sents teacher_model spb bs nm True tdim w0 = (Inr ev, w1)"
    and "p = os_path_join dir (''mse_evaluation_'' @ nm @ ''_results.csv'')"
    and "files w p = None"
    and "call ev model1 (Some dir) epoch1 steps1 w = (Inr ms1, ev1, wa)"
    and "call ev1 model2 (Some dir) epoch2 steps2 wa = (Inr ms2, ev2, wb)"
  shows "\<exists>x1 x2. ms1 = prefix_name_to_metrics [(''negative_mse'', fneg x1)] nm
      \<and> ms2 = prefix_name_to_metrics [(''negative_mse'', fneg x2)] nm
      \<and> files wb p = Some [[CStr ''epoch'', CStr ''steps'', CStr ''MSE''],
                            [CInt epoch1, CInt steps1, CFloat x1],
                            [CInt epoch2, CInt steps2, CFloat x2]]"
proof -
  from init_success [OF assms(1)] have
    fields: "name ev = nm" "write_csv ev"
      "csv_file ev = ''mse_evaluation_'' @ nm @ ''_results.csv''"
      "csv_headers ev = [''epoch'', ''steps'', ''MSE'']"
    by auto
  have p: "p = os_path_join dir (csv_file ev)" by (simp add: assms(2) fields)
  from call_logged [OF assms(4) fields(2) p] obtain x1 where
    ms1: "ms1 = prefix_name_to_metrics [(''negative_mse'', fneg x1)] (name ev)"
    and ev1: "ev1 = ev"
    and fa: "files wa = (files w)(p \<mapsto>
           (case files w p of
              None \<Rightarrow> [map CStr (csv_headers ev), [CInt epoch1, CInt steps1, CFloat x1]]
            | Some old \<Rightarrow> old @ [[CInt epoch1, CInt steps1, CFloat x1]]))"
    by blast
  from assms(5) have c2: "call ev model2 (Some dir) epoch2 steps2 wa = (Inr ms2, ev2, wb)"
    by (simp add: ev1)
  from call_logged [OF c2 fields(2) p] obtain x2 where
    ms2: "ms2 = prefix_name_to_metrics [(''negative_mse'', fneg x2)] (name ev)"
    and fb: "files wb = (files wa)(p \<mapsto>
           (case files wa p of
              None \<Rightarrow> [map CStr (csv_headers ev), [CInt epoch2, CInt steps2, CFloat x2]]
            | Some old \<Rightarrow> old @ [[CInt epoch2, CInt steps2, CFloat x2]]))"
    by blast
  have "files wb p = Some [[CStr ''epoch'', CStr ''steps'', CStr ''MSE''],
                            [CInt epoch1, CInt steps1, CFloat x1],
                            [CInt epoch2, CInt steps2, CFloat x2]]"
    by (simp add: fb fa assms(3) fields)
  with ms1 ms2 show ?thesis unfolding fields by blast
qed

text \<open>
  Claim C6 at two concrete calls with different models, epochs and steps.
\<close>

theorem two_calls_csv_witness:
  "init [''a'', ''bb''] [''ccc'', ''dddd''] (Some (toy_encoder 1 1)) False 32 ''dev'' True None empty_world
     = (Inr (toy_evaluator [''a'', ''bb''] [''ccc'', ''dddd'']),
        snd (init [''a'', ''bb''] [''ccc'', ''dddd''] (Some (toy_encoder 1 1)) False 32 ''dev'' True None
               empty_world))
   \<and> files empty_world (os_path_join ''out'' (''mse_evaluation_'' @ ''dev'' @ ''_results.csv'')) = None
   \<and> fst (call (toy_evaluator [''a'', ''bb''] [''ccc'', ''dddd'']) (toy_encoder 2 1) (Some ''out'') 1 10
             empty_world) = Inr [(''dev_negative_mse'', Fin (- 400))]
   \<and> fst (call (toy_evaluator [''a'', ''bb''] [''ccc'', ''dddd'']) (toy_encoder 3 2) (Some ''out'') 2 20
             (snd (snd (call (toy_evaluator [''a'', ''bb''] [''ccc'', ''dddd'']) (toy_encoder 2 1)
                          (Some ''out'') 1 10 empty_world))))
       = Inr [(''dev_negative_mse'', Fin (- 3050))]
   \<and> files (snd (snd (call (toy_evaluator [''a'', ''bb''] [''ccc'', ''dddd'']) (toy_encoder 3 2)
                         (Some ''out'') 2 20
                         (snd (snd (call (toy_evaluator [''a'', ''bb''] [''ccc'', ''dddd''])
                                      (toy_encoder 2 1) (Some ''out'') 1 10 empty_world))))))
       (os_path_join ''out'' (''mse_evaluation_'' @ ''dev'' @ ''_results.csv''))
       = Some [[CStr ''epoch'', CStr ''steps'', CStr ''MSE''],
               [CInt 1, CInt 10, CFloat (Fin 400)],
               [CInt 2, CInt 20, CFloat (Fin 3050)]]"
proof -
  let ?ev = "toy_evaluator [''a'', ''bb''] [''ccc'', ''dddd'']"
  let ?i = "init [''a'', ''bb''] [''ccc'', ''dddd''] (Some (toy_encoder 1 1)) False 32 ''dev'' True None
              empty_world"
  let ?c1 = "call ?ev (toy_encoder 2 1) (Some ''out'') 1 10 empty_world"
  let ?c2 = "call ?ev (toy_encoder 3 2) (Some ''out'') 2 20 (snd (snd ?c1))"
  let ?p = "os_path_join ''out'' (''mse_evaluation_'' @ ''dev'' @ ''_results.csv'')"
  have h1: "?i = (Inr ?ev, snd ?i)" by (simp add: ev_simps)
  have h2: "?p = ?p" by (rule refl)
  have h3: "files empty_world ?p = None" by (simp add: empty_world_def)
  have h4: "?c1 = (Inr [(''dev_negative_mse'', Fin (- 400))], ?ev, snd (snd ?c1))"
    by (simp add: ev_simps)
  have h5: "?c2 = (Inr [(''dev_negative_mse'', Fin (- 3050))], ?ev, snd (snd ?c2))"
    by (simp add: ev_simps)
  from two_calls_csv [OF h1 h2 h3 h4 h5] obtain x1 x2 where
    m1: "[(''dev_negative_mse'', Fin (- 400))] = prefix_name_to_metrics [(''negative_mse'', fneg x1)] ''dev''"
    and m2: "[(''dev_negative_mse'', Fin (- 3050))] = prefix_name_to_metrics [(''negative_mse'', fneg x2)] ''dev''"
    and f: "files (snd (snd ?c2)) ?p = Some [[CStr ''epoch'', CStr ''steps'', CStr ''MSE''],
                            [CInt 1, CInt 10, CFloat x1], [CInt 2, CInt 20, CFloat x2]]"
    by blast
  have x1: "x1 = Fin 400" using m1 by (cases x1) (simp_all add: prefix_name_to_metrics_def)
  have x2: "x2 = Fin 3050" using m2 by (cases x2) (simp_all add: prefix_name_to_metrics_def)
  from h4 have r1: "fst ?c1 = Inr [(''dev_negative_mse'', Fin (- 400))]" by (metis fst_conv)
  from h5 have r2: "fst ?c2 = Inr [(''dev_negative_mse'', Fin (- 3050))]" by (metis fst_conv)
  from f have f': "files (snd (snd ?c2)) ?p = Some [[CStr ''epoch'', CStr ''steps'', CStr ''MSE''],
               [CInt 1, CInt 10, CFloat (Fin 400)], [CInt 2, CInt 20, CFloat (Fin 3050)]]"
    unfolding x1 x2 .
  show ?thesis by (intro conjI h1 h3 r1 r2 f')
qed

text \<open>
  Claim C7 says that with a truncation dimension \<open>d\<close> both matrices have width \<open>d\<close>.
  The evaluator only enters the context; the width is the encoder's. With \<open>d = 5\<close> and
  encoders that slice two-column rows to their first five elements, both encodings run
  in the context of 5, both matrices are two columns wide, and the call returns a
  metric.
\<close>

theorem truncation_width_counterexample:
  "fst (init [''a'', ''bb''] [''ccc'', ''dddd''] (Some (slicing_encoder 1)) False 32 ''dev'' True
          (Some 5) empty_world)
     = Inr ((toy_evaluator [''a'', ''bb''] [''ccc'', ''dddd''])
              \<lparr>truncate_dim := Some 5,
               source_embeddings := \<lparr>ncols = 2, rows = [[Fin 1, Fin 1], [Fin 2, Fin 1]]\<rparr>\<rparr>)
   \<and> trace (snd (init [''a'', ''bb''] [''ccc'', ''dddd''] (Some (slicing_encoder 1)) False 32 ''dev''
                    True (Some 5) empty_world))
       = [EncodeCall 1 (Some 5) [''a'', ''bb'']]
   \<and> fst (encode_targets
            ((toy_evaluator [''a'', ''bb''] [''ccc'', ''dddd''])
               \<lparr>truncate_dim := Some 5,
                source_embeddings := \<lparr>ncols = 2, rows = [[Fin 1, Fin 1], [Fin 2, Fin 1]]\<rparr>\<rparr>)
            (slicing_encoder 2) empty_world)
       = Inr \<lparr>ncols = 2, rows = [[Fin 3, Fin 1], [Fin 4, Fin 1]]\<rparr>
   \<and> fst (call
            ((toy_evaluator [''a'', ''bb''] [''ccc'', ''dddd''])
               \<lparr>truncate_dim := Some 5,
                source_embeddings := \<lparr>ncols = 2, rows = [[Fin 1, Fin 1], [Fin 2, Fin 1]]\<rparr>\<rparr>)
            (slicing_encoder 2) None (- 1) (- 1) empty_world)
       = Inr [(''dev_negative_mse'', Fin (- 200))]
   \<and> int (ncols \<lparr>ncols = 2, rows = [[Fin 1, Fin 1], [Fin 2, Fin 1]]\<rparr>) \<noteq> 5
   \<and> int (ncols \<lparr>ncols = 2, rows = [[Fin 3, Fin 1], [Fin 4, Fin 1]]\<rparr>) \<noteq> 5"
  by (simp add: ev_simps slicing_encoder_def py_slice_to_def)

text \<open>
  Claim C7, amended. With a truncation dimension \<open>d\<close> configured, the teacher encodes
  the source sentences at construction inside a truncate-to-\<open>d\<close> context, and in every
  call the model encodes the target sentences inside a truncate-to-\<open>d\<close> context, the
  same \<open>d\<close>. The matrices compared are the ones the two encoders return in that context,
  with the widths the encoders give them there.
\<close>

theorem truncation_context_shared:
  assumes "init source_sentences target_sents (Some teacher) spb bs nm wcsv (Some d) w0 = (Inr ev, w1)"
    and "call ev model output_path epoch steps w = (r, ev', w')"
  shows "filter is_encode (trace w1) =
           filter is_encode (trace w0) @ [EncodeCall (enc_id teacher) (Some d) source_sentences]
      \<and> filter is_encode (trace w') =
           filter is_encode (trace w) @ [EncodeCall (enc_id model) (Some d) target_sents]
      \<and> encode_fn teacher (Some d) source_sentences spb bs = Inr (source_embeddings ev)
      \<and> fst (encode_targets ev model w) = encode_fn model (Some d) target_sents spb bs
      \<and> (\<forall>T m. encode_fn model (Some d) target_sents spb bs = Inr T
               \<and> compute_mse (source_embeddings ev) T = Inr m \<longrightarrow>
               r = Inl OSError \<or> r = Inr (prefix_name_to_metrics [(''negative_mse'', fneg m)] nm))"
proof -
  from init_success [OF assms(1)] have
    e: "encode_fn teacher (Some d) source_sentences spb bs = Inr (source_embeddings ev)"
    and w1: "w1 = w0\<lparr>trace := trace w0 @ [EncodeCall (enc_id teacher) (Some d) source_sentences]\<rparr>"
    and fields: "truncate_dim ev = Some d" "target_sentences ev = target_sents"
      "show_progress_bar ev = spb" "batch_size ev = bs" "name ev = nm"
    by auto
  have a: "filter is_encode (trace w1) =
           filter is_encode (trace w0) @ [EncodeCall (enc_id teacher) (Some d) source_sentences]"
    by (simp add: w1)
  have b: "filter is_encode (trace w') =
           filter is_encode (trace w) @ [EncodeCall (enc_id model) (Some d) target_sents]"
    using call_frame [OF assms(2)] by (simp add: fields)
  have t: "fst (encode_targets ev model w) = encode_fn model (Some d) target_sents spb bs"
    by (simp add: encode_targets_def encode_eq fields)
  have c: "\<forall>T m. encode_fn model (Some d) target_sents spb bs = Inr T
               \<and> compute_mse (source_embeddings ev) T = Inr m \<longrightarrow>
               r = Inl OSError \<or> r = Inr (prefix_name_to_metrics [(''negative_mse'', fneg m)] nm)"
  proof (intro allI impI, elim conjE)
    fix T m
    assume T: "encode_fn model (Some d) target_sents spb bs = Inr T"
      and m: "compute_mse (source_embeddings ev) T = Inr m"
    have "fst (call ev model output_path epoch steps w) = r" by (simp add: assms(2))
    then show "r = Inl OSError \<or> r = Inr (prefix_name_to_metrics [(''negative_mse'', fneg m)] nm)"
      by (auto simp: call_result fields T m log_csv_result split: if_splits)
  qed
  from a b e t c show ?thesis by blast
qed

text \<open>
  The amended claim C7 at a concrete construction and call with truncation dimension
  1 and encoders that return one column in that context.
\<close>

theorem truncation_context_shared_witness:
  "init [''a'', ''bb''] [''ccc'', ''dddd''] (Some (toy_encoder 1 1)) False 32 ''dev'' True (Some 1)
       empty_world
     = (Inr ((toy_evaluator [''a'', ''bb''] [''ccc'', ''dddd''])
               \<lparr>truncate_dim := Some 1,
                source_embeddings := \<lparr>ncols = 1, rows = [[Fin 1], [Fin 2]]\<rparr>\<rparr>),
        snd (init [''a'', ''bb''] [''ccc'', ''dddd''] (Some (toy_encoder 1 1)) False 32 ''dev'' True
               (Some 1) empty_world))
   \<and> encode_fn (toy_encoder 2 3) (Some 1) [''ccc'', ''dddd''] False 32
       = Inr \<lparr>ncols = 1, rows = [[Fin 9], [Fin 12]]\<rparr>
   \<and> compute_mse \<lparr>ncols = 1, rows = [[Fin 1], [Fin 2]]\<rparr> \<lparr>ncols = 1, rows = [[Fin 9], [Fin 12]]\<rparr>
       = Inr (Fin 8200)
   \<and> fst (encode_targets
            ((toy_evaluator [''a'', ''bb''] [''ccc'', ''dddd''])
               \<lparr>truncate_dim := Some 1,
                source_embeddings := \<lparr>ncols = 1, rows = [[Fin 1], [Fin 2]]\<rparr>\<rparr>)
            (toy_encoder 2 3) empty_world)
       = Inr \<lparr>ncols = 1, rows = [[Fin 9], [Fin 12]]\<rparr>
   \<and> filter is_encode
        (trace (snd (snd (call
            ((toy_evaluator [''a'', ''bb''] [''ccc'', ''dddd''])
               \<lparr>truncate_dim := Some 1,
                source_embeddings := \<lparr>ncols = 1, rows = [[Fin 1], [Fin 2]]\<rparr>\<rparr>)
            (toy_encoder 2 3) None 1 2 empty_world))))
       = [EncodeCall 2 (Some 1) [''ccc'', ''dddd'']]
   \<and> fst (call
            ((toy_evaluator [''a'', ''bb''] [''ccc'', ''dddd''])
               \<lparr>truncate_dim := Some 1,
                source_embeddings := \<lparr>ncols = 1, rows = [[Fin 1], [Fin 2]]\<rparr>\<rparr>)
            (toy_encoder 2 3) None 1 2 empty_world)
       = Inr [(''dev_negative_mse'', Fin (- 8200))]"
proof -
  let ?ev = "(toy_evaluator [''a'', ''bb''] [''ccc'', ''dddd''])
               \<lparr>truncate_dim := Some 1,
                source_embeddings := \<lparr>ncols = 1, rows = [[Fin 1], [Fin 2]]\<rparr>\<rparr>"
  let ?i = "init [''a'', ''bb''] [''ccc'', ''dddd''] (Some (toy_encoder 1 1)) False 32 ''dev'' True
              (Some 1) empty_world"
  let ?c = "call ?ev (toy_encoder 2 3) None 1 2 empty_world"
  let ?T = "\<lparr>ncols = 1, rows = [[Fin 9], [Fin 12]]\<rparr>"
  have h1: "?i = (Inr ?ev, snd ?i)" by (simp add: ev_simps)
  have h2: "?c = (Inr [(''dev_negative_mse'', Fin (- 8200))], fst (snd ?c), snd (snd ?c))"
    by (simp add: ev_simps)
  have eT: "encode_fn (toy_encoder 2 3) (Some 1) [''ccc'', ''dddd''] False 32 = Inr ?T"
    by (simp add: ev_simps)
  have cm: "compute_mse \<lparr>ncols = 1, rows = [[Fin 1], [Fin 2]]\<rparr> ?T = Inr (Fin 8200)"
    by (simp add: ev_simps)
  from truncation_context_shared [OF h1 h2] have
    tr: "filter is_encode (trace (snd (snd ?c))) =
           filter is_encode (trace empty_world)
             @ [EncodeCall (enc_id (toy_encoder 2 3)) (Some 1) [''ccc'', ''dddd'']]"
    and t: "fst (encode_targets ?ev (toy_encoder 2 3) empty_world)
              = encode_fn (toy_encoder 2 3) (Some 1) [''ccc'', ''dddd''] False 32"
    by blast+
  from t eT have t': "fst (encode_targets ?ev (toy_encoder 2 3) empty_world) = Inr ?T" by simp
  from tr have tr': "filter is_encode (trace (snd (snd ?c))) = [EncodeCall 2 (Some 1) [''ccc'', ''dddd'']]"
    by (simp add: toy_encoder_def empty_world_def)
  from h2 have r: "fst ?c = Inr [(''dev_negative_mse'', Fin (- 8200))]" by (metis fst_conv)
  show ?thesis by (intro conjI h1 eT cm t' tr' r)
qed

text \<open>
  Claim C8 says that source and target lists of different lengths always make the call
  fail with the shape error of the subtraction. With one source sentence and two target
  sentences the subtraction broadcasts the single source row over both target rows, and
  the call returns a metric.
\<close>

theorem shape_error_counterexample:
  "length (rows (source_embeddings (toy_evaluator [''a''] [''bb'', ''ccc'']))) = 1
   \<and> encode_fn (toy_encoder 2 1) None [''bb'', ''ccc''] False 32
       = Inr \<lparr>ncols = 2, rows = [[Fin 2, Fin 2], [Fin 3, Fin 3]]\<rparr>
   \<and> fst (call (toy_evaluator [''a''] [''bb'', ''ccc'']) (toy_encoder 2 1) None (- 1) (- 1) empty_world)
       = Inr [(''dev_negative_mse'', Fin (- 250))]"
  by (simp add: ev_simps)

text \<open>
  Claim C8, amended. Once the model has returned the target embeddings, the call
  fails with numpy's \<^verbatim>\<open>ValueError\<close> exactly when the two shapes cannot be broadcast
  together, that is when the row counts differ and neither is 1, or the column counts
  differ and neither is 1. The error is passed on as it is: the call ends after the
  encoding, without a file or a model card written.
\<close>

theorem shape_error_iff_not_broadcastable:
  assumes "encode_fn model (truncate_dim self) (target_sentences self)
             (show_progress_bar self) (batch_size self) = Inr T"
  shows "(fst (call self model output_path epoch steps w) = Inl ValueError)
           = (\<not> broadcastable (source_embeddings self) T)
      \<and> (\<not> broadcastable (source_embeddings self) T \<longrightarrow>
            call self model output_path epoch steps w =
              (Inl ValueError, self,
               w\<lparr>trace := trace w @ [EncodeCall (enc_id model) (truncate_dim self)
                                        (target_sentences self)]\<rparr>))
      \<and> broadcastable (source_embeddings self) T =
          ((length (rows (source_embeddings self)) = length (rows T)
              \<or> length (rows (source_embeddings self)) = 1 \<or> length (rows T) = 1)
           \<and> (ncols (source_embeddings self) = ncols T
              \<or> ncols (source_embeddings self) = 1 \<or> ncols T = 1))"
proof -
  let ?S = "source_embeddings self"
  have a: "(fst (call self model output_path epoch steps w) = Inl ValueError)
           = (\<not> broadcastable ?S T)"
  proof (cases "compute_mse ?S T")
    case (Inl e)
    with compute_mse_error [OF Inl] show ?thesis by (simp add: call_result assms)
  next
    case (Inr m)
    with compute_mse_value [OF Inr] show ?thesis
      by (simp add: call_result assms log_csv_result)
  qed
  have b: "\<not> broadcastable ?S T \<longrightarrow>
            call self model output_path epoch steps w =
              (Inl ValueError, self,
               w\<lparr>trace := trace w @ [EncodeCall (enc_id model) (truncate_dim self)
                                        (target_sentences self)]\<rparr>)"
  proof
    assume nb: "\<not> broadcastable ?S T"
    then obtain e where "compute_mse ?S T = Inl e"
      using compute_mse_value by (cases "compute_mse ?S T") auto
    with compute_mse_error [OF this] have "compute_mse ?S T = Inl ValueError" by simp
    then show "call self model output_path epoch steps w =
              (Inl ValueError, self,
               w\<lparr>trace := trace w @ [EncodeCall (enc_id model) (truncate_dim self)
                                        (target_sentences self)]\<rparr>)"
      by (simp add: call_def encode_targets_def encode_eq assms)
  qed
  have c: "broadcastable ?S T =
          ((length (rows ?S) = length (rows T) \<or> length (rows ?S) = 1 \<or> length (rows T) = 1)
           \<and> (ncols ?S = ncols T \<or> ncols ?S = 1 \<or> ncols T = 1))"
    by (auto simp: broadcastable_def broadcast_dim_def)
  from a b c show ?thesis by blast
qed

text \<open>
  The amended claim C8 at a concrete call: three source rows against two target rows.
\<close>

theorem shape_error_iff_not_broadcastable_witness:
  "encode_fn (toy_encoder 2 1) (truncate_dim (toy_evaluator [''a'', ''b'', ''c''] [''bb'', ''ccc'']))
      (target_sentences (toy_evaluator [''a'', ''b'', ''c''] [''bb'', ''ccc'']))
      (show_progress_bar (toy_evaluator [''a'', ''b'', ''c''] [''bb'', ''ccc'']))
      (batch_size (toy_evaluator [''a'', ''b'', ''c''] [''bb'', ''ccc'']))
     = Inr \<lparr>ncols = 2, rows = [[Fin 2, Fin 2], [Fin 3, Fin 3]]\<rparr>
   \<and> \<not> broadcastable (source_embeddings (toy_evaluator [''a'', ''b'', ''c''] [''bb'', ''ccc'']))
         \<lparr>ncols = 2, rows = [[Fin 2, Fin 2], [Fin 3, Fin 3]]\<rparr>
   \<and> fst (call (toy_evaluator [''a'', ''b'', ''c''] [''bb'', ''ccc'']) (toy_encoder 2 1)
             (Some ''out'') 1 2 empty_world) = Inl ValueError"
proof -
  let ?ev = "toy_evaluator [''a'', ''b'', ''c''] [''bb'', ''ccc'']"
  let ?T = "\<lparr>ncols = 2, rows = [[Fin 2, Fin 2], [Fin 3, Fin 3]]\<rparr>"
  have h: "encode_fn (toy_encoder 2 1) (truncate_dim ?ev) (target_sentences ?ev)
      (show_progress_bar ?ev) (batch_size ?ev) = Inr ?T"
    by (simp add: ev_simps)
  have nb: "\<not> broadcastable (source_embeddings ?ev) ?T"
    by (simp add: ev_simps broadcastable_def)
  from shape_error_iff_not_broadcastable [OF h, where output_path = "Some ''out''"
      and w = empty_world and epoch = 1 and steps = 2] nb
  have "fst (call ?ev (toy_encoder 2 1) (Some ''out'') 1 2 empty_world) = Inl ValueError"
    by blast
  with h nb show ?thesis by (intro conjI)
qed

text \<open>
  Claim C9. A call without an output path, or with \<^verbatim>\<open>write_csv\<close> unset, opens no file and
  leaves every file as it was; its result is the result of the same call with any
  output path at which the log can be written.
\<close>

theorem csv_only_with_path_and_flag:
  assumes "call self model output_path epoch steps w = (r, self', w')"
    and "output_path = None \<or> \<not> write_csv self"
  shows "files w' = files w
      \<and> filter is_open (trace w') = filter is_open (trace w)
      \<and> (\<forall>dir. \<not> (write_csv self \<and> open_denied w (os_path_join dir (csv_file self)))
            \<longrightarrow> fst (call self model (Some dir) epoch steps w) = r)"
proof -
  let ?w1 = "w\<lparr>trace := trace w @ [EncodeCall (enc_id model) (truncate_dim self)
                                        (target_sentences self)]\<rparr>"
  have skip: "\<And>m. log_csv self output_path epoch steps m ?w1 = (Inr (), ?w1)"
    using assms(2) by (rule log_csv_skip)
  have a: "files w' = files w \<and> filter is_open (trace w') = filter is_open (trace w)"
    using assms(1)
    by (auto simp: call_def encode_targets_def encode_eq skip Let_def
        store_metrics_in_model_card_data_def split: sum.splits)
  have b: "\<forall>dir. \<not> (write_csv self \<and> open_denied w (os_path_join dir (csv_file self)))
            \<longrightarrow> fst (call self model (Some dir) epoch steps w) = r"
  proof (intro allI impI)
    fix dir
    assume ok: "\<not> (write_csv self \<and> open_denied w (os_path_join dir (csv_file self)))"
    have lg: "\<And>m. fst (log_csv self (Some dir) epoch steps m ?w1) = Inr ()"
      using ok by (intro log_csv_allowed) simp
    have "fst (call self model (Some dir) epoch steps w)
            = fst (call self model output_path epoch steps w)"
      by (simp add: call_result lg skip split: sum.splits)
    then show "fst (call self model (Some dir) epoch steps w) = r"
      by (simp add: assms(1))
  qed
  from a b show ?thesis by blast
qed

text \<open>
  Claim C9 at a concrete call without an output path, \<^verbatim>\<open>write_csv\<close> being set.
\<close>

theorem csv_only_with_path_and_flag_witness:
  "call (toy_evaluator [''a'', ''bb''] [''ccc'', ''dddd'']) (toy_encoder 2 1) None 1 2 empty_world
     = (Inr [(''dev_negative_mse'', Fin (- 400))], toy_evaluator [''a'', ''bb''] [''ccc'', ''dddd''],
        snd (snd (call (toy_evaluator [''a'', ''bb''] [''ccc'', ''dddd'']) (toy_encoder 2 1)
                    None 1 2 empty_world)))
   \<and> write_csv (toy_evaluator [''a'', ''bb''] [''ccc'', ''dddd''])
   \<and> \<not> open_denied empty_world
         (os_path_join ''out'' (csv_file (toy_evaluator [''a'', ''bb''] [''ccc'', ''dddd''])))
   \<and> files (snd (snd (call (toy_evaluator [''a'', ''bb''] [''ccc'', ''dddd'']) (toy_encoder 2 1)
                         None 1 2 empty_world))) = files empty_world
   \<and> filter is_open (trace (snd (snd (call (toy_evaluator [''a'', ''bb''] [''ccc'', ''dddd''])
                                         (toy_encoder 2 1) None 1 2 empty_world)))) = []
   \<and> fst (call (toy_evaluator [''a'', ''bb''] [''ccc'', ''dddd'']) (toy_encoder 2 1) (Some ''out'') 1 2
             empty_world) = Inr [(''dev_negative_mse'', Fin (- 400))]"
proof -
  let ?ev = "toy_evaluator [''a'', ''bb''] [''ccc'', ''dddd'']"
  let ?c = "call ?ev (toy_encoder 2 1) None 1 2 empty_world"
  have h1: "?c = (Inr [(''dev_negative_mse'', Fin (- 400))], ?ev, snd (snd ?c))"
    by (simp add: ev_simps)
  have h2: "(None :: string option) = None \<or> \<not> write_csv ?ev" by simp
  have wc: "write_csv ?ev" by (simp add: ev_simps)
  have nd: "\<not> open_denied empty_world (os_path_join ''out'' (csv_file ?ev))"
    by (simp add: empty_world_def)
  from csv_only_with_path_and_flag [OF h1 h2] have
    f: "files (snd (snd ?c)) = files empty_world"
    and t: "filter is_open (trace (snd (snd ?c))) = filter is_open (trace empty_world)"
    and r: "\<forall>dir. \<not> (write_csv ?ev \<and> open_denied empty_world (os_path_join dir (csv_file ?ev)))
            \<longrightarrow> fst (call ?ev (toy_encoder 2 1) (Some dir) 1 2 empty_world)
                  = Inr [(''dev_negative_mse'', Fin (- 400))]"
    by blast+
  from t have t': "filter is_open (trace (snd (snd ?c))) = []" by (simp add: empty_world_def)
  from r nd have r': "fst (call ?ev (toy_encoder 2 1) (Some ''out'') 1 2 empty_world)
                  = Inr [(''dev_negative_mse'', Fin (- 400))]" by blast
  show ?thesis by (intro conjI h1 wc nd f t' r')
qed

text \<open>
  Claim C10. The teacher defaults to \<^verbatim>\<open>None\<close>, and construction looks up
  \<^verbatim>\<open>truncate_sentence_embeddings\<close> or \<^verbatim>\<open>encode\<close> on it whatever the other arguments are:
  every construction without a teacher raises \<^verbatim>\<open>AttributeError\<close>, no evaluator is built
  and the world is left as it was.
\<close>

theorem init_without_teacher_raises:
  "init source_sentences target_sents None spb bs nm wcsv tdim w = (Inl AttributeError, w)"
  by (simp add: init_def)

end
